theory Spec2Isabelle
  imports Complex_Main "HOL-Library.Sublist"
begin

text \<open>
  A shallow embedding of the agent's orchestration core: the conversation validator and
  healer, the abort handler and the tool phase of the agentic loop, the tool-call
  preprocessor, the command tool's start-up and event handling, and the path validator.
  The definitions come first, each next to the name of the function it embeds; the
  properties follow.
\<close>

section \<open>Data model (src/lib/core/types.ts)\<close>

text \<open>
  A JavaScript string is a sequence of UTF-16 code units. The texts that the core handles
  as a whole (message contents, names, ids, raw argument texts) are lists of characters,
  a character standing for one code unit below 256. A string inside a decoded JSON
  document can hold any code unit, since an escape \<open>\uXXXX\<close> denotes one: it is the list
  of its code units, each as a number.
\<close>

type_synonym js_string = "nat list"

definition char_code :: "char \<Rightarrow> nat" where
  "char_code c = of_char c"

definition code_units :: "string \<Rightarrow> js_string" where
  "code_units s = map char_code s"

text \<open>
  Values of the JavaScript type \<open>any\<close> that reach the core are decoded JSON documents.
  A number is kept as the exact decimal value of its lexeme. An object is the list of its
  own members in the order in which JavaScript enumerates them: first the members whose
  key is an array index, by ascending index, then the other members in the order of their
  creation.
\<close>

datatype json =
    JNull
  | JBool bool
  | JNumber rat
  | JString js_string
  | JArray "json list"
  | JObject "(js_string \<times> json) list"

text \<open>\<open>ToolCall\<close>: \<open>{id, type: 'function', function: {name, arguments}}\<close>.\<close>

record ToolCall =
  call_id :: string
  fn_name :: string
  fn_arguments :: string

record UsageInfo =
  promptTokens :: nat
  completionTokens :: nat
  totalTokens :: nat

text \<open>
  \<open>Message\<close>. The role is an arbitrary string at run time (the validator has branches for
  a missing and for an unknown role); the empty string stands for a missing role. Optional
  fields are options, \<open>None\<close> being \<open>undefined\<close>.
\<close>

record Message =
  msg_id :: "string option"
  role :: string
  content :: "string option"
  toolCalls :: "ToolCall list option"
  name :: "string option"
  toolCallId :: "string option"
  toolArgs :: "json option"
  usage :: "UsageInfo option"

definition plain_message :: "string \<Rightarrow> string option \<Rightarrow> Message" where
  "plain_message r c =
     \<lparr>msg_id = None, role = r, content = c, toolCalls = None, name = None,
      toolCallId = None, toolArgs = None, usage = None\<rparr>"

definition assistant_calls :: "string \<Rightarrow> ToolCall list \<Rightarrow> Message" where
  "assistant_calls c tcs = (plain_message ''assistant'' (Some c))\<lparr>toolCalls := Some tcs\<rparr>"

definition tool_message :: "string \<Rightarrow> string \<Rightarrow> string \<Rightarrow> json \<Rightarrow> Message" where
  "tool_message n c i a =
     (plain_message ''tool'' (Some c))\<lparr>name := Some n, toolCallId := Some i, toolArgs := Some a\<rparr>"

definition mk_call :: "string \<Rightarrow> string \<Rightarrow> string \<Rightarrow> ToolCall" where
  "mk_call i n a = \<lparr>call_id = i, fn_name = n, fn_arguments = a\<rparr>"

subsection \<open>JavaScript primitives used by the core\<close>

text \<open>\<open>!s\<close> for an optional string: \<open>undefined\<close> and the empty string are falsy.\<close>

definition falsy_str :: "string option \<Rightarrow> bool" where
  "falsy_str s = (case s of None \<Rightarrow> True | Some t \<Rightarrow> t = [])"

text \<open>Template interpolation of a non-negative integer: \<open>`${i}`\<close>.\<close>

definition digit_char :: "nat \<Rightarrow> char" where
  "digit_char d = char_of (48 + d)"

fun show_nat :: "nat \<Rightarrow> string" where
  "show_nat n = (if n < 10 then [digit_char n] else show_nat (n div 10) @ [digit_char (n mod 10)])"

declare show_nat.simps [simp del]

text \<open>\<open>String.prototype.trim\<close> on code units below 256.\<close>

definition js_whitespace :: "char \<Rightarrow> bool" where
  "js_whitespace c = (c \<in> set [CHR 0x09, CHR 0x0A, CHR 0x0B, CHR 0x0C, CHR 0x0D, CHR 0x20, CHR 0xA0])"

definition js_trim :: "string \<Rightarrow> string" where
  "js_trim s = rev (dropWhile js_whitespace (rev (dropWhile js_whitespace s)))"

text \<open>\<open>Array.prototype.join\<close>.\<close>

fun js_join :: "string \<Rightarrow> string list \<Rightarrow> string" where
  "js_join sep [] = []"
| "js_join sep [x] = x"
| "js_join sep (x # y # ys) = x @ sep @ js_join sep (y # ys)"

text \<open>The double-quote character, as a string.\<close>

definition dquote :: string where
  "dquote = [CHR 0x22]"

text \<open>A \<open>Set<string>\<close> keeps insertion order: a list without duplicates.\<close>

definition set_add :: "string \<Rightarrow> string list \<Rightarrow> string list" where
  "set_add x xs = (if x \<in> set xs then xs else xs @ [x])"

definition set_delete :: "string \<Rightarrow> string list \<Rightarrow> string list" where
  "set_delete x xs = removeAll x xs"

section \<open>Conversation validator (validateMessages)\<close>

record ValidationResult =
  valid :: bool
  errors :: "string list"
  warnings :: "string list"

record vstate =
  v_errors :: "string list"
  v_warnings :: "string list"
  v_pending :: "string list"

definition push_error :: "string \<Rightarrow> vstate \<Rightarrow> vstate" where
  "push_error e st = st\<lparr>v_errors := v_errors st @ [e]\<rparr>"

definition push_warning :: "string \<Rightarrow> vstate \<Rightarrow> vstate" where
  "push_warning w st = st\<lparr>v_warnings := v_warnings st @ [w]\<rparr>"

text \<open>The body of \<open>for (const toolCall of msg.toolCalls)\<close>.\<close>

definition check_tool_call :: "nat \<Rightarrow> vstate \<Rightarrow> ToolCall \<Rightarrow> vstate" where
  "check_tool_call i st tc =
     (let st1 = (if call_id tc = []
                 then push_error (''Tool call in message '' @ show_nat i @ '' is missing an id'') st
                 else st\<lparr>v_pending := set_add (call_id tc) (v_pending st)\<rparr>)
      in if fn_name tc = []
         then push_error (''Tool call in message '' @ show_nat i @ '' is missing function name'') st1
         else st1)"

text \<open>The body of the main loop for the message at index \<open>i\<close>; \<open>prev\<close> is \<open>prevMsg\<close>.\<close>

definition check_message :: "nat \<Rightarrow> Message option \<Rightarrow> Message \<Rightarrow> vstate \<Rightarrow> vstate" where
  "check_message i prev msg st =
    (if role msg = [] then
       push_error (''Message at index '' @ show_nat i @ '' is missing a role'') st
     else if role msg = ''system'' then
       (let st1 = (if 0 < i \<and> map_option role prev \<noteq> Some ''system''
                   then push_warning (''System message at index '' @ show_nat i
                          @ '' appears after non-system messages'') st
                   else st)
        in if falsy_str (content msg)
           then push_error (''System message at index '' @ show_nat i @ '' is missing content'') st1
           else st1)
     else if role msg = ''user'' then
       (let st1 = (if (case content msg of None \<Rightarrow> True | Some c \<Rightarrow> c = [] \<or> js_trim c = [])
                   then push_error (''User message at index '' @ show_nat i @ '' has empty content'') st
                   else st)
        in if map_option role prev = Some ''user''
           then push_error (''User message at index '' @ show_nat i
                  @ '' follows another user message (index '' @ show_nat (i - 1) @ '')'') st1
           else st1)
     else if role msg = ''assistant'' then
       (case toolCalls msg of
          None \<Rightarrow> st
        | Some tcs \<Rightarrow> foldl (check_tool_call i) st tcs)
     else if role msg = ''tool'' then
       (let st1 = (if falsy_str (name msg)
                   then push_error (''Tool message at index '' @ show_nat i @ '' is missing name'') st
                   else st)
        in case toolCallId msg of
             None \<Rightarrow>
               push_error (''Tool message at index '' @ show_nat i @ '' is missing toolCallId'') st1
           | Some t \<Rightarrow>
               if t = []
               then push_error (''Tool message at index '' @ show_nat i @ '' is missing toolCallId'') st1
               else if t \<notin> set (v_pending st1)
               then push_warning (''Tool message at index '' @ show_nat i @ '' has toolCallId '' @ dquote
                      @ t @ dquote @ '' which was not found in previous assistant message'') st1
               else st1\<lparr>v_pending := set_delete t (v_pending st1)\<rparr>)
     else
       push_error (''Message at index '' @ show_nat i @ '' has invalid role: '' @ role msg) st)"

text \<open>\<open>for (let i = 0; i < messages.length; i++)\<close>, from index \<open>i\<close> on.\<close>

fun validate_loop :: "nat \<Rightarrow> Message option \<Rightarrow> Message list \<Rightarrow> vstate \<Rightarrow> vstate" where
  "validate_loop i prev [] st = st"
| "validate_loop i prev (m # ms) st = validate_loop (Suc i) (Some m) ms (check_message i prev m st)"

definition scan_messages :: "Message list \<Rightarrow> vstate" where
  "scan_messages messages =
     validate_loop 0 None messages \<lparr>v_errors = [], v_warnings = [], v_pending = []\<rparr>"

definition pending_error :: "string list \<Rightarrow> string" where
  "pending_error p =
     show_nat (length p)
       @ '' tool call(s) have no corresponding tool response. Tool call IDs: ''
       @ js_join '', '' p"

definition validateMessages :: "Message list \<Rightarrow> ValidationResult" where
  "validateMessages messages =
    (if length messages = 0 then \<lparr>valid = True, errors = [], warnings = []\<rparr>
     else
       (let st = scan_messages messages;
            errs = (if 0 < length (v_pending st)
                    then v_errors st @ [pending_error (v_pending st)]
                    else v_errors st)
        in \<lparr>valid = (length errs = 0), errors = errs, warnings = v_warnings st\<rparr>))"

subsection \<open>Announced and answered tool calls\<close>

text \<open>
  The ids that the validator records for a message: the non-empty ids of the tool calls of
  an assistant message. A tool message answers the id it carries in \<open>toolCallId\<close>.
  \<open>unanswered_by f ms\<close> lists, message by message, the ids that \<open>f\<close> finds announced
  and that no later message answers.
\<close>

definition announced_ids :: "Message \<Rightarrow> string list" where
  "announced_ids m =
     (if role m = ''assistant''
      then (case toolCalls m of None \<Rightarrow> [] | Some tcs \<Rightarrow> filter (\<lambda>x. x \<noteq> []) (map call_id tcs))
      else [])"

definition answers :: "Message \<Rightarrow> string \<Rightarrow> bool" where
  "answers m x = (role m = ''tool'' \<and> x \<noteq> [] \<and> toolCallId m = Some x)"

definition answered_later :: "string \<Rightarrow> Message list \<Rightarrow> bool" where
  "answered_later x ms = list_ex (\<lambda>m. answers m x) ms"

fun unanswered_by :: "(Message \<Rightarrow> string list) \<Rightarrow> Message list \<Rightarrow> string list" where
  "unanswered_by f [] = []"
| "unanswered_by f (m # ms) =
     filter (\<lambda>x. \<not> answered_later x ms) (remdups (f m)) @ unanswered_by f ms"

definition unanswered_ids :: "Message list \<Rightarrow> string list" where
  "unanswered_ids ms = unanswered_by announced_ids ms"

definition count_answers :: "string \<Rightarrow> Message list \<Rightarrow> nat" where
  "count_answers x ms = length (filter (\<lambda>m. answers m x) ms)"

text \<open>Example transcripts.\<close>

definition two_unanswered :: "Message list" where
  "two_unanswered =
     [plain_message ''user'' (Some ''hi''),
      assistant_calls [] [mk_call ''a'' ''read_file'' ''{}'', mk_call ''b'' ''grep'' ''{}'']]"

definition answered_twice :: "Message list" where
  "answered_twice =
     [plain_message ''user'' (Some ''hi''),
      assistant_calls [] [mk_call ''a'' ''read_file'' ''{}''],
      tool_message ''read_file'' ''{}'' ''a'' (JObject []),
      tool_message ''read_file'' ''{}'' ''a'' (JObject [])]"

definition duplicate_answered :: "Message list" where
  "duplicate_answered =
     [plain_message ''user'' (Some ''hi''),
      assistant_calls [] [mk_call ''a'' ''read_file'' ''{}'', mk_call ''a'' ''grep'' ''{}''],
      tool_message ''read_file'' ''{}'' ''a'' (JObject [])]"

definition duplicate_unanswered :: "Message list" where
  "duplicate_unanswered =
     [plain_message ''user'' (Some ''hi''),
      assistant_calls [] [mk_call ''a'' ''read_file'' ''{}'', mk_call ''a'' ''grep'' ''{}'']]"

subsection \<open>Serialising an error payload\<close>

text \<open>
  \<open>JSON.stringify\<close> of a string: the quotation mark, the backslash and the control
  characters below \<open>0x20\<close> are escaped, every other code unit is copied.
\<close>

definition hex_digit :: "nat \<Rightarrow> char" where
  "hex_digit d = (if d < 10 then char_of (48 + d) else char_of (87 + d))"

definition json_escape_char :: "char \<Rightarrow> string" where
  "json_escape_char c =
     (if c = CHR 0x22 then [CHR 0x5C, CHR 0x22]
      else if c = CHR 0x5C then [CHR 0x5C, CHR 0x5C]
      else if c = CHR 0x08 then [CHR 0x5C, CHR ''b'']
      else if c = CHR 0x09 then [CHR 0x5C, CHR ''t'']
      else if c = CHR 0x0A then [CHR 0x5C, CHR ''n'']
      else if c = CHR 0x0C then [CHR 0x5C, CHR ''f'']
      else if c = CHR 0x0D then [CHR 0x5C, CHR ''r'']
      else if (of_char c :: nat) < 32
      then [CHR 0x5C, CHR ''u'', CHR ''0'', CHR ''0'',
            hex_digit (of_char c div 16), hex_digit (of_char c mod 16)]
      else [c])"

definition json_quote :: "string \<Rightarrow> string" where
  "json_quote s = dquote @ concat (map json_escape_char s) @ dquote"

text \<open>\<open>JSON.stringify({ error: msg })\<close>.\<close>

definition stringify_error :: "string \<Rightarrow> string" where
  "stringify_error msg = ''{'' @ json_quote ''error'' @ '':'' @ json_quote msg @ ''}''"

section \<open>Conversation healer (healOrphanedToolCalls)\<close>










definition orphaned_text :: string where
  "orphaned_text =
     ''Tool call was orphaned (no response was recorded). This has been automatically resolved.''"

definition orphan_message :: "string \<times> string \<Rightarrow> Message" where
  "orphan_message orphan =
     \<lparr>msg_id = None, role = ''tool'', content = Some (stringify_error orphaned_text),
      toolCalls = None, name = Some (snd orphan), toolCallId = Some (fst orphan),
      toolArgs = Some (JObject []), usage = None\<rparr>"

text \<open>\<open>xs.splice(start, 0, ...items)\<close>.\<close>

definition splice_at :: "nat \<Rightarrow> 'a list \<Rightarrow> 'a list \<Rightarrow> 'a list" where
  "splice_at start items xs = take start xs @ items @ drop start xs"



subsection \<open>The healed transcript, described directly\<close>

text \<open>
  The ids that the healer records for a message: the ids of those tool calls of an assistant
  message that have both a non-empty id and a non-empty function name.
  \<open>orphans_at p k\<close> are the orphans announced at index \<open>k\<close>, \<open>synth p k\<close> the
  synthetic tool messages for them, and \<open>weave i g ms\<close> is \<open>ms\<close> with \<open>g k\<close> inserted
  right after the message at index \<open>k\<close> (indices counted from \<open>i\<close>).
  \<open>key_step\<close> is the effect of one message on the set of pending ids, and
  \<open>lookup_or_nil\<close> reads a group of orphans, empty when the index has none.
\<close>

definition registered_ids :: "Message \<Rightarrow> string list" where
  "registered_ids m =
     (if role m = ''assistant''
      then (case toolCalls m of
              None \<Rightarrow> []
            | Some tcs \<Rightarrow> map call_id (filter (\<lambda>tc. call_id tc \<noteq> [] \<and> fn_name tc \<noteq> []) tcs))
      else [])"








section \<open>Abort handling (handleAbortError) and the tool phase of runAgenticLoop\<close>

definition abort_message :: "ToolCall \<Rightarrow> Message" where
  "abort_message toolCall =
     \<lparr>msg_id = None, role = ''tool'',
      content = Some (stringify_error ''Operation aborted by user''),
      toolCalls = None, name = Some (fn_name toolCall), toolCallId = Some (call_id toolCall),
      toolArgs = Some (JObject []), usage = None\<rparr>"

definition interrupted_message :: Message where
  "interrupted_message =
     plain_message ''assistant'' (Some (''[Request interrupted by user]'' @ [CHR 0x0A]))"

text \<open>
  \<open>handleAbortError\<close> looks at the last message only: \<open>messages[messages.length - 1]\<close>
  is \<open>undefined\<close> for an empty transcript.
\<close>

definition handleAbortError :: "Message list \<Rightarrow> Message list" where
  "handleAbortError messages =
     (case (if messages = [] then None else Some (last messages)) of
        None \<Rightarrow> messages @ [interrupted_message]
      | Some lastMessage \<Rightarrow>
          (case toolCalls lastMessage of
             None \<Rightarrow> messages @ [interrupted_message]
           | Some tcs \<Rightarrow>
               if role lastMessage = ''assistant'' \<and> 0 < length tcs
               then messages @ map abort_message tcs @ [interrupted_message]
               else messages @ [interrupted_message]))"

text \<open>
  \<open>handleGeneralError\<close>, for the message of the error that was thrown (\<open>None\<close> when the
  thrown value is not an \<open>Error\<close>). The entry that it writes to the log is left out.
\<close>

definition handleGeneralError :: "string option \<Rightarrow> Message" where
  "handleGeneralError thrown =
     plain_message ''assistant''
       (Some (''Error: '' @ (case thrown of None \<Rightarrow> ''Unknown error'' | Some message \<Rightarrow> message)))"

text \<open>
  The tool phase of one iteration of \<open>runAgenticLoop\<close> (the \<open>for (const toolCall of
  response.toolCalls)\<close> loop and the checks around it). What \<open>executeToolCall\<close> does
  for a call, and whether the signal is aborted when the loop reaches it, are inputs:
  one \<open>call_event\<close> per tool call. \<open>executeToolCall\<close> returns a validation failure
  with its synthetic message, or the tool message with the \<open>permissionDenied\<close> flag, or
  it throws an error with some message.
\<close>

datatype exec_result =
    ValidationFailed Message
  | Executed Message bool
  | Crashed string

record call_event =
  aborted_before :: bool
  returned :: exec_result

text \<open>
  How the loop ends: it throws \<open>AbortError\<close>, or the error of \<open>executeToolCall\<close> passes
  through it, or it ends (by exhaustion or by \<open>break\<close>) with the local
  \<open>conversationHistory\<close> and the \<open>permissionDenied\<close> flag.
\<close>

datatype loop_outcome =
    LoopAborted
  | LoopThrew string
  | LoopEnded "Message list" bool

fun run_tool_calls :: "call_event list \<Rightarrow> Message list \<Rightarrow> loop_outcome" where
  "run_tool_calls [] history = LoopEnded history False"
| "run_tool_calls (ev # evs) history =
     (if aborted_before ev then LoopAborted
      else (case returned ev of
              ValidationFailed m \<Rightarrow> run_tool_calls evs (history @ [m])
            | Executed m denied \<Rightarrow>
                if denied then LoopEnded (history @ [m]) True
                else run_tool_calls evs (history @ [m])
            | Crashed message \<Rightarrow> LoopThrew message))"

datatype phase_outcome =
    AbortSurfaced "Message list"
  | ErrorSurfaced "Message list"
  | Continues "Message list" bool

text \<open>
  \<open>setMessages\<close> publishes a copy of \<open>conversationHistory\<close> right after the assistant
  message is pushed and again after the loop, not inside it. When an error reaches
  \<open>handleSubmit\<close>, its \<open>catch\<close> works on the published transcript: \<open>handleAbortError\<close>
  is applied to it for \<open>AbortError\<close>, and the message of \<open>handleGeneralError\<close> is
  appended to it for any other error.
  \<open>aborted_after\<close> is \<open>signal.aborted\<close> at the check that follows the loop. The ids
  that \<open>setMessages\<close> gives to published messages play no part and are left out.
\<close>

definition tool_phase ::
    "Message list \<Rightarrow> Message \<Rightarrow> call_event list \<Rightarrow> bool \<Rightarrow> phase_outcome" where
  "tool_phase history assistantMessage events aborted_after =
     (let published = history @ [assistantMessage]
      in case run_tool_calls events published of
           LoopAborted \<Rightarrow> AbortSurfaced (handleAbortError published)
         | LoopThrew message \<Rightarrow> ErrorSurfaced (published @ [handleGeneralError (Some message)])
         | LoopEnded conversationHistory permissionDenied \<Rightarrow>
             if aborted_after then AbortSurfaced (handleAbortError conversationHistory)
             else Continues conversationHistory permissionDenied)"

text \<open>
  An assistant message with two tool calls; the user presses ESC while the permission
  prompt for the first one is open and then denies it.
\<close>

definition two_calls :: Message where
  "two_calls =
     assistant_calls [] [mk_call ''a'' ''write_file'' ''{}'', mk_call ''b'' ''read_file'' ''{}'']"

definition denied_message :: Message where
  "denied_message =
     tool_message ''write_file'' (stringify_error ''Permission denied by user. STOP IMMEDIATELY.'')
       ''a'' (JObject [])"

definition denied_then_abort :: phase_outcome where
  "denied_then_abort =
     tool_phase [plain_message ''user'' (Some ''hi'')] two_calls
       [\<lparr>aborted_before = False, returned = Executed denied_message True\<rparr>] True"

section \<open>Decoding JSON text (JSON.parse)\<close>

text \<open>
  \<open>JSON.parse\<close> belongs to the JavaScript runtime. It is modelled after the JSON grammar
  (ECMA-404): a tokenizer that reads the text character by character, and a pushdown
  parser over the tokens. \<open>None\<close> stands for the \<open>SyntaxError\<close> that \<open>JSON.parse\<close>
  throws. The text is read as code units below 256; the strings of the decoded document
  are lists of code units, and an escape \<open>\uXXXX\<close> yields the code unit it names.
\<close>

datatype token =
    TLBrace | TRBrace | TLBracket | TRBracket | TColon | TComma
  | TString js_string | TNumber rat | TTrue | TFalse | TNull

subsection \<open>Numbers\<close>

definition is_digit :: "char \<Rightarrow> bool" where
  "is_digit c = (48 \<le> char_code c \<and> char_code c \<le> 57)"

definition digit_val :: "char \<Rightarrow> nat" where
  "digit_val c = char_code c - 48"

definition digits_val :: "string \<Rightarrow> nat" where
  "digits_val s = foldl (\<lambda>a c. 10 * a + digit_val c) 0 s"

text \<open>The exponent part: \<open>[eE] [+-]? [0-9]+\<close>, or nothing.\<close>

definition parse_exponent :: "string \<Rightarrow> int option" where
  "parse_exponent s =
     (case s of
        [] \<Rightarrow> Some 0
      | c # r \<Rightarrow>
          if c = CHR ''e'' \<or> c = CHR ''E'' then
            (case r of
               [] \<Rightarrow> None
             | d # ds \<Rightarrow>
                 let (neg, body) = (if d = CHR ''-'' then (True, ds)
                                    else if d = CHR ''+'' then (False, ds) else (False, r))
                 in if body \<noteq> [] \<and> list_all is_digit body
                    then Some (if neg then - int (digits_val body) else int (digits_val body))
                    else None)
          else None)"

text \<open>The fraction part \<open>. [0-9]+\<close> (or nothing), followed by the exponent part.\<close>

definition parse_fraction :: "string \<Rightarrow> (string \<times> int) option" where
  "parse_fraction s =
     (case s of
        [] \<Rightarrow> Some ([], 0)
      | c # r \<Rightarrow>
          if c = CHR ''.'' then
            (let fp = takeWhile is_digit r
             in if fp = [] then None
                else map_option (\<lambda>e. (fp, e)) (parse_exponent (dropWhile is_digit r)))
          else map_option (\<lambda>e. ([], e)) (parse_exponent s))"

text \<open>\<open>-? (0 | [1-9][0-9]*) (. [0-9]+)? ([eE] [+-]? [0-9]+)?\<close>, as its exact decimal value.\<close>

definition parse_number :: "string \<Rightarrow> rat option" where
  "parse_number s =
     (let (neg, s1) = (case s of [] \<Rightarrow> (False, s)
                       | c # r \<Rightarrow> if c = CHR ''-'' then (True, r) else (False, s));
          ip = takeWhile is_digit s1
      in if ip = [] \<or> (hd ip = CHR ''0'' \<and> ip \<noteq> ''0'') then None
         else (case parse_fraction (dropWhile is_digit s1) of
                 None \<Rightarrow> None
               | Some (fp, e) \<Rightarrow>
                   let mantissa = (of_nat (digits_val (ip @ fp)) :: rat) / 10 ^ length fp;
                       scaled = (if 0 \<le> e then mantissa * 10 ^ nat e else mantissa / 10 ^ nat (- e))
                   in Some (if neg then - scaled else scaled)))"

subsection \<open>Tokens\<close>

datatype lex_mode =
    LIdle
  | LStr js_string
  | LEsc js_string
  | LUni js_string string
  | LNum string
  | LWord string

definition json_space :: "char \<Rightarrow> bool" where
  "json_space c = (c = CHR 0x20 \<or> c = CHR 0x09 \<or> c = CHR 0x0A \<or> c = CHR 0x0D)"

definition number_char :: "char \<Rightarrow> bool" where
  "number_char c =
     (is_digit c \<or> c = CHR ''-'' \<or> c = CHR ''+'' \<or> c = CHR ''.'' \<or> c = CHR ''e'' \<or> c = CHR ''E'')"

definition word_char :: "char \<Rightarrow> bool" where
  "word_char c = (97 \<le> char_code c \<and> char_code c \<le> 122)"

definition is_hex :: "char \<Rightarrow> bool" where
  "is_hex c =
     (is_digit c \<or> (97 \<le> char_code c \<and> char_code c \<le> 102)
      \<or> (65 \<le> char_code c \<and> char_code c \<le> 70))"

definition hex_val :: "char \<Rightarrow> nat" where
  "hex_val c =
     (if is_digit c then char_code c - 48
      else if 97 \<le> char_code c then char_code c - 87
      else char_code c - 55)"

definition hex4_val :: "string \<Rightarrow> nat" where
  "hex4_val s = foldl (\<lambda>a c. 16 * a + hex_val c) 0 s"

text \<open>A character met between tokens.\<close>

definition idle_step :: "token list \<Rightarrow> char \<Rightarrow> (lex_mode \<times> token list) option" where
  "idle_step ts c =
     (if json_space c then Some (LIdle, ts)
      else if c = CHR ''{'' then Some (LIdle, ts @ [TLBrace])
      else if c = CHR ''}'' then Some (LIdle, ts @ [TRBrace])
      else if c = CHR ''['' then Some (LIdle, ts @ [TLBracket])
      else if c = CHR '']'' then Some (LIdle, ts @ [TRBracket])
      else if c = CHR '':'' then Some (LIdle, ts @ [TColon])
      else if c = CHR '','' then Some (LIdle, ts @ [TComma])
      else if c = CHR 0x22 then Some (LStr [], ts)
      else if is_digit c \<or> c = CHR ''-'' then Some (LNum [c], ts)
      else if word_char c then Some (LWord [c], ts)
      else None)"

text \<open>Closing the token that is being read, at a delimiter or at the end of the text.\<close>

definition finish_token :: "lex_mode \<Rightarrow> token list \<Rightarrow> token list option" where
  "finish_token mode ts =
     (case mode of
        LIdle \<Rightarrow> Some ts
      | LNum s \<Rightarrow> map_option (\<lambda>r. ts @ [TNumber r]) (parse_number s)
      | LWord w \<Rightarrow>
          if w = ''true'' then Some (ts @ [TTrue])
          else if w = ''false'' then Some (ts @ [TFalse])
          else if w = ''null'' then Some (ts @ [TNull])
          else None
      | _ \<Rightarrow> None)"

text \<open>The code unit that a one-letter escape denotes.\<close>

definition escape_char :: "char \<Rightarrow> nat option" where
  "escape_char c =
     (if c = CHR 0x22 \<or> c = CHR 0x5C \<or> c = CHR ''/'' then Some (char_code c)
      else if c = CHR ''b'' then Some 8
      else if c = CHR ''f'' then Some 12
      else if c = CHR ''n'' then Some 10
      else if c = CHR ''r'' then Some 13
      else if c = CHR ''t'' then Some 9
      else None)"

definition lex_step :: "lex_mode \<times> token list \<Rightarrow> char \<Rightarrow> (lex_mode \<times> token list) option" where
  "lex_step st c =
     (case st of (mode, ts) \<Rightarrow>
        (case mode of
           LIdle \<Rightarrow> idle_step ts c
         | LNum s \<Rightarrow>
             if number_char c then Some (LNum (s @ [c]), ts)
             else (case finish_token (LNum s) ts of None \<Rightarrow> None | Some ts' \<Rightarrow> idle_step ts' c)
         | LWord w \<Rightarrow>
             if word_char c then Some (LWord (w @ [c]), ts)
             else (case finish_token (LWord w) ts of None \<Rightarrow> None | Some ts' \<Rightarrow> idle_step ts' c)
         | LStr s \<Rightarrow>
             if c = CHR 0x22 then Some (LIdle, ts @ [TString s])
             else if c = CHR 0x5C then Some (LEsc s, ts)
             else if char_code c < 32 then None
             else Some (LStr (s @ [char_code c]), ts)
         | LEsc s \<Rightarrow>
             if c = CHR ''u'' then Some (LUni s [], ts)
             else map_option (\<lambda>d. (LStr (s @ [d]), ts)) (escape_char c)
         | LUni s hs \<Rightarrow>
             if \<not> is_hex c then None
             else if length hs < 3 then Some (LUni s (hs @ [c]), ts)
             else Some (LStr (s @ [hex4_val (hs @ [c])]), ts)))"

fun lex_from :: "lex_mode \<times> token list \<Rightarrow> string \<Rightarrow> token list option" where
  "lex_from st [] = finish_token (fst st) (snd st)"
| "lex_from st (c # cs) = (case lex_step st c of None \<Rightarrow> None | Some st' \<Rightarrow> lex_from st' cs)"

definition tokenize :: "string \<Rightarrow> token list option" where
  "tokenize s = lex_from (LIdle, []) s"

subsection \<open>Values\<close>

text \<open>
  An open array with its elements so far, or an open object with its members so far and
  the key that waits for its value.
\<close>

datatype frame =
    FArray "json list"
  | FObject "(js_string \<times> json) list" "js_string option"

datatype parse_mode =
    MValue
  | MValueOrEnd
  | MKeyOrEnd
  | MKey
  | MColon
  | MCommaOrEnd
  | MDone json

text \<open>
  A key is an array index when it is the canonical decimal numeral of a number below
  \<open>2\<^sup>3\<^sup>2 - 1\<close>.
\<close>

definition array_index :: "js_string \<Rightarrow> int option" where
  "array_index k =
     (if k \<noteq> [] \<and> list_all (\<lambda>u. 48 \<le> u \<and> u \<le> 57) k \<and> (hd k \<noteq> 48 \<or> k = [48])
      then (let n = foldl (\<lambda>a u. 10 * a + (int u - 48)) 0 k
            in if n < 4294967295 then Some n else None)
      else None)"

definition index_below :: "int \<Rightarrow> js_string \<times> json \<Rightarrow> bool" where
  "index_below i e = (case array_index (fst e) of None \<Rightarrow> False | Some j \<Rightarrow> j < i)"

text \<open>
  Defining the member \<open>k\<close> of an object. A key that is already present keeps its place
  and takes the new value. A new key that is an array index goes after the smaller
  indices; any other new key goes to the end.
\<close>

definition obj_set :: "js_string \<Rightarrow> json \<Rightarrow> (js_string \<times> json) list \<Rightarrow> (js_string \<times> json) list" where
  "obj_set k v ms =
     (if k \<in> set (map fst ms)
      then map (\<lambda>e. if fst e = k then (k, v) else e) ms
      else (case array_index k of
              None \<Rightarrow> ms @ [(k, v)]
            | Some i \<Rightarrow> takeWhile (index_below i) ms @ [(k, v)] @ dropWhile (index_below i) ms))"

text \<open>A value is complete: it goes into the innermost open container, or is the result.\<close>

definition put_value :: "json \<Rightarrow> frame list \<Rightarrow> (parse_mode \<times> frame list) option" where
  "put_value v stack =
     (case stack of
        [] \<Rightarrow> Some (MDone v, [])
      | FArray xs # rest \<Rightarrow> Some (MCommaOrEnd, FArray (xs @ [v]) # rest)
      | FObject ms (Some k) # rest \<Rightarrow> Some (MCommaOrEnd, FObject (obj_set k v ms) None # rest)
      | FObject ms None # rest \<Rightarrow> None)"

definition start_value :: "token \<Rightarrow> frame list \<Rightarrow> (parse_mode \<times> frame list) option" where
  "start_value t stack =
     (case t of
        TLBrace \<Rightarrow> Some (MKeyOrEnd, FObject [] None # stack)
      | TLBracket \<Rightarrow> Some (MValueOrEnd, FArray [] # stack)
      | TString s \<Rightarrow> put_value (JString s) stack
      | TNumber r \<Rightarrow> put_value (JNumber r) stack
      | TTrue \<Rightarrow> put_value (JBool True) stack
      | TFalse \<Rightarrow> put_value (JBool False) stack
      | TNull \<Rightarrow> put_value JNull stack
      | _ \<Rightarrow> None)"

definition close_array :: "frame list \<Rightarrow> (parse_mode \<times> frame list) option" where
  "close_array stack =
     (case stack of FArray xs # rest \<Rightarrow> put_value (JArray xs) rest | _ \<Rightarrow> None)"

definition close_object :: "frame list \<Rightarrow> (parse_mode \<times> frame list) option" where
  "close_object stack =
     (case stack of FObject ms None # rest \<Rightarrow> put_value (JObject ms) rest | _ \<Rightarrow> None)"

definition take_key :: "token \<Rightarrow> frame list \<Rightarrow> (parse_mode \<times> frame list) option" where
  "take_key t stack =
     (case (t, stack) of
        (TString k, FObject ms None # rest) \<Rightarrow> Some (MColon, FObject ms (Some k) # rest)
      | _ \<Rightarrow> None)"

definition parse_step :: "parse_mode \<times> frame list \<Rightarrow> token \<Rightarrow> (parse_mode \<times> frame list) option" where
  "parse_step st t =
     (case st of (mode, stack) \<Rightarrow>
        (case mode of
           MValue \<Rightarrow> start_value t stack
         | MValueOrEnd \<Rightarrow> if t = TRBracket then close_array stack else start_value t stack
         | MKeyOrEnd \<Rightarrow> if t = TRBrace then close_object stack else take_key t stack
         | MKey \<Rightarrow> take_key t stack
         | MColon \<Rightarrow> if t = TColon then Some (MValue, stack) else None
         | MCommaOrEnd \<Rightarrow>
             (case stack of
                [] \<Rightarrow> None
              | FArray xs # rest \<Rightarrow>
                  if t = TComma then Some (MValue, stack)
                  else if t = TRBracket then close_array stack
                  else None
              | FObject ms k # rest \<Rightarrow>
                  if t = TComma then Some (MKey, stack)
                  else if t = TRBrace then close_object stack
                  else None)
         | MDone v \<Rightarrow> None))"

fun parse_from :: "parse_mode \<times> frame list \<Rightarrow> token list \<Rightarrow> json option" where
  "parse_from st [] = (case fst st of MDone v \<Rightarrow> Some v | _ \<Rightarrow> None)"
| "parse_from st (t # ts) = (case parse_step st t of None \<Rightarrow> None | Some st' \<Rightarrow> parse_from st' ts)"

definition JSON_parse :: "string \<Rightarrow> json option" where
  "JSON_parse s = (case tokenize s of None \<Rightarrow> None | Some ts \<Rightarrow> parse_from (MValue, []) ts)"

subsection \<open>Reading a decoded value\<close>

text \<open>
  Truthiness. A number is falsy when the double nearest to it is zero, that is when its
  magnitude is at most \<open>2\<^sup>-\<^sup>1\<^sup>0\<^sup>7\<^sup>5\<close>, half the smallest positive double.
\<close>

definition js_truthy :: "json \<Rightarrow> bool" where
  "js_truthy v =
     (case v of
        JNull \<Rightarrow> False
      | JBool b \<Rightarrow> b
      | JNumber r \<Rightarrow> 1 / 2 ^ 1075 < \<bar>r\<bar>
      | JString s \<Rightarrow> s \<noteq> []
      | JArray xs \<Rightarrow> True
      | JObject ms \<Rightarrow> True)"

text \<open>
  Property access \<open>v.key\<close> on a decoded value, for a key that no prototype defines (the
  core reads \<open>error\<close>, \<open>todos\<close>, \<open>task\<close>, \<open>completed\<close>, \<open>command\<close>, \<open>file_path\<close>,
  \<open>directory_path\<close> and \<open>pattern\<close>): a \<open>TypeError\<close> on \<open>null\<close>, the member of an
  object, and \<open>undefined\<close> otherwise.
\<close>

datatype 'a attempt = Threw | Got 'a

definition get_prop :: "json \<Rightarrow> string \<Rightarrow> json option attempt" where
  "get_prop v key =
     (case v of
        JNull \<Rightarrow> Threw
      | JObject ms \<Rightarrow> Got (map_of ms (code_units key))
      | _ \<Rightarrow> Got None)"

section \<open>Tool-call preprocessor (toolCallValidator)\<close>

record ToolCallValidationResult =
  tcv_valid :: bool
  tcv_toolName :: "string option"
  tcv_toolArgs :: "json option"
  tcv_errorMessage :: "Message option"

text \<open>
  \<open>parseToolArguments\<close>. The text of the \<open>SyntaxError\<close> that \<open>JSON.parse\<close> throws
  depends on the JavaScript engine: \<open>syntax_error_message\<close> gives it for a raw text.
\<close>

definition parseToolArguments ::
    "(string \<Rightarrow> string) \<Rightarrow> string \<Rightarrow> string \<Rightarrow> string \<Rightarrow> ToolCallValidationResult" where
  "parseToolArguments syntax_error_message toolName argumentsJson callId =
     (case JSON_parse argumentsJson of
        Some decoded \<Rightarrow>
          \<lparr>tcv_valid = True, tcv_toolName = Some toolName, tcv_toolArgs = Some decoded,
           tcv_errorMessage = None\<rparr>
      | None \<Rightarrow>
          \<lparr>tcv_valid = False, tcv_toolName = None, tcv_toolArgs = None,
           tcv_errorMessage = Some
             \<lparr>msg_id = None, role = ''tool'',
              content = Some (stringify_error
                (''Invalid JSON in tool arguments: '' @ syntax_error_message argumentsJson
                   @ ''. Raw arguments: '' @ argumentsJson)),
              toolCalls = None, name = Some toolName, toolCallId = Some callId,
              toolArgs = Some (JObject []), usage = None\<rparr>\<rparr>)"

subsection \<open>extractToolCallHistory\<close>

record HistoryEntry =
  h_name :: string
  h_args :: json

text \<open>The body of \<open>for (const msg of messages)\<close>; the state is \<open>(allToolCalls, lastToolCall)\<close>.\<close>

definition history_step ::
    "HistoryEntry list \<times> HistoryEntry option \<Rightarrow> Message \<Rightarrow> HistoryEntry list \<times> HistoryEntry option" where
  "history_step st msg =
     (case toolArgs msg of
        None \<Rightarrow> st
      | Some args \<Rightarrow>
          if role msg = ''tool'' \<and> js_truthy args then
            (case content msg of
               None \<Rightarrow> st
             | Some c \<Rightarrow>
                 if c = [] then st
                 else (case JSON_parse c of
                         None \<Rightarrow> st
                       | Some result \<Rightarrow>
                           (case get_prop result ''error'' of
                              Threw \<Rightarrow> st
                            | Got (Some e) \<Rightarrow> st
                            | Got None \<Rightarrow>
                                (let toolCall = \<lparr>h_name = (case name msg of None \<Rightarrow> [] | Some n \<Rightarrow> n),
                                                 h_args = args\<rparr>
                                 in (fst st @ [toolCall], Some toolCall)))))
          else st)"

definition extractToolCallHistory :: "Message list \<Rightarrow> HistoryEntry list \<times> HistoryEntry option" where
  "extractToolCallHistory messages = foldl history_step ([], None) messages"

subsection \<open>Example payloads\<close>






section \<open>Command execution (executeExecuteCommand)\<close>

text \<open>
  The objects that the command tool serialises are flat: strings, booleans and an integer
  exit code. \<open>stringify_fields\<close> is \<open>JSON.stringify\<close> on such an object literal.
\<close>

datatype field_value = FStr string | FBool bool | FInt int

definition show_int :: "int \<Rightarrow> string" where
  "show_int i = (if i < 0 then ''-'' @ show_nat (nat (- i)) else show_nat (nat i))"

definition stringify_value :: "field_value \<Rightarrow> string" where
  "stringify_value v =
     (case v of
        FStr s \<Rightarrow> json_quote s
      | FBool b \<Rightarrow> if b then ''true'' else ''false''
      | FInt i \<Rightarrow> show_int i)"

definition stringify_fields :: "(string \<times> field_value) list \<Rightarrow> string" where
  "stringify_fields fs =
     ''{'' @ js_join '','' (map (\<lambda>f. json_quote (fst f) @ '':'' @ stringify_value (snd f)) fs) @ ''}''"

record ExecuteCommandArgs =
  command :: string
  timeout :: "int option"

text \<open>
  \<open>ToolContext\<close>: the successful calls of the conversation so far, the last of them, and
  the abort signal, of which the tools read \<open>aborted\<close>. Every field is optional.
\<close>

record ToolContext =
  allToolCalls :: "HistoryEntry list option"
  lastToolCall :: "HistoryEntry option"
  signal :: "bool option"

text \<open>The processes started so far: each \<open>spawn\<close> appends its command.\<close>

record os_world =
  spawned :: "string list"

text \<open>
  The state that the event handlers of one invocation share: the two buffers, the flags
  \<open>killed\<close> and \<open>resolved\<close> (here the resolved text, if any), and whether the timeout
  timer and the grace timer are armed.
\<close>

record exec_state =
  es_command :: string
  es_stdout :: string
  es_stderr :: string
  es_killed :: bool
  es_resolved :: "string option"
  es_timeout_armed :: bool
  es_grace_armed :: bool
  es_has_signal :: bool
  es_pid :: "nat option"

datatype exec_start = Resolved string | Running exec_state

definition aborted_text :: string where
  "aborted_text =
     ''ABORTED: User pressed ESC to stop this command. The command was intentionally cancelled and did not complete.''"

definition context_aborted :: "ToolContext option \<Rightarrow> bool" where
  "context_aborted context =
     (case context of None \<Rightarrow> False | Some c \<Rightarrow> (case signal c of None \<Rightarrow> False | Some a \<Rightarrow> a))"

text \<open>
  The synchronous part of the promise body. \<open>pid\<close> is what \<open>spawn\<close> reports for the child
  (\<open>undefined\<close> when the process could not be started).
\<close>

definition executeExecuteCommand ::
    "ExecuteCommandArgs \<Rightarrow> ToolContext option \<Rightarrow> nat option \<Rightarrow> os_world \<Rightarrow> exec_start \<times> os_world" where
  "executeExecuteCommand args context pid w =
     (let cmd = command args;
          limit = (case timeout args of None \<Rightarrow> 30000 | Some t \<Rightarrow> t)
      in if context_aborted context then
           (Resolved (stringify_fields
              [(''error'', FStr aborted_text), (''aborted'', FBool True), (''command'', FStr cmd),
               (''stdout'', FStr []), (''stderr'', FStr [])]), w)
         else
           (Running \<lparr>es_command = cmd, es_stdout = [], es_stderr = [], es_killed = False,
                     es_resolved = None, es_timeout_armed = (0 < limit), es_grace_armed = False,
                     es_has_signal = (case context of None \<Rightarrow> False | Some c \<Rightarrow> signal c \<noteq> None),
                     es_pid = pid\<rparr>,
            w\<lparr>spawned := spawned w @ [cmd]\<rparr>))"

text \<open>What happens to a running invocation, one event at a time.\<close>

datatype exec_event =
    StdoutData string
  | StderrData string
  | Close "int option"
  | SpawnFailed string
  | TimeoutFires
  | AbortSignal
  | GraceTimerFires

definition buffer_cap :: nat where
  "buffer_cap = 1024 * 1024 * 10"

definition exec_step :: "exec_state \<Rightarrow> exec_event \<Rightarrow> exec_state" where
  "exec_step s ev =
     (case ev of
        StdoutData d \<Rightarrow>
          (let out = es_stdout s @ d
           in s\<lparr>es_stdout := out, es_killed := (es_killed s \<or> buffer_cap < length out)\<rparr>)
      | StderrData d \<Rightarrow>
          (let err = es_stderr s @ d
           in s\<lparr>es_stderr := err, es_killed := (es_killed s \<or> buffer_cap < length err)\<rparr>)
      | TimeoutFires \<Rightarrow>
          if es_timeout_armed s then s\<lparr>es_killed := True, es_timeout_armed := False\<rparr> else s
      | AbortSignal \<Rightarrow>
          if es_has_signal s
          then s\<lparr>es_killed := True, es_grace_armed := (es_grace_armed s \<or> es_pid s \<noteq> None),
                 es_has_signal := False\<rparr>
          else s
      | GraceTimerFires \<Rightarrow>
          if es_grace_armed s \<and> es_killed s \<and> es_resolved s = None
          then s\<lparr>es_grace_armed := False,
                 es_resolved := Some (stringify_fields
                   [(''error'', FStr ''ABORTED: Process tree killed. The command was terminated forcefully.''),
                    (''aborted'', FBool True), (''command'', FStr (es_command s)),
                    (''stdout'', FStr (js_trim (es_stdout s))),
                    (''stderr'', FStr (js_trim (es_stderr s)))])\<rparr>
          else s\<lparr>es_grace_armed := False\<rparr>
      | Close code \<Rightarrow>
          (let s1 = s\<lparr>es_timeout_armed := False\<rparr>
           in if es_resolved s \<noteq> None then s1
              else if es_killed s then
                s1\<lparr>es_resolved := Some (stringify_fields
                   [(''error'', FStr aborted_text), (''aborted'', FBool True),
                    (''command'', FStr (es_command s)),
                    (''stdout'', FStr (js_trim (es_stdout s))),
                    (''stderr'', FStr (js_trim (es_stderr s)))])\<rparr>
              else
                s1\<lparr>es_resolved := Some (stringify_fields
                   [(''command'', FStr (es_command s)),
                    (''stdout'', FStr (js_trim (es_stdout s))),
                    (''stderr'', FStr (js_trim (es_stderr s))),
                    (''exitCode'', FInt (case code of None \<Rightarrow> 0 | Some c \<Rightarrow> c))])\<rparr>)
      | SpawnFailed msg \<Rightarrow>
          (let s1 = s\<lparr>es_timeout_armed := False\<rparr>
           in if es_resolved s \<noteq> None then s1
              else
                s1\<lparr>es_resolved := Some (stringify_fields
                   [(''error'', FStr (if msg = [] then ''Failed to execute command'' else msg)),
                    (''command'', FStr (es_command s)),
                    (''stdout'', FStr (js_trim (es_stdout s))),
                    (''stderr'', FStr (js_trim (es_stderr s)))])\<rparr>))"

text \<open>A cancelled context and a command, as examples.\<close>

definition cancelled_context :: "ToolContext option" where
  "cancelled_context = Some \<lparr>allToolCalls = None, lastToolCall = None, signal = Some True\<rparr>"

definition sleep_command :: ExecuteCommandArgs where
  "sleep_command = \<lparr>command = ''sleep 5'', timeout = None\<rparr>"

section \<open>Path validator (PathValidator)\<close>

subsection \<open>The POSIX path functions of the runtime\<close>

text \<open>
  \<open>path.resolve\<close>, \<open>path.relative\<close>, \<open>path.join\<close> and \<open>path.basename\<close> belong to the
  runtime. They are modelled on the segments of a path: \<open>split_on\<close> is
  \<open>String.prototype.split\<close> for a one-character separator.
\<close>

fun split_on :: "char \<Rightarrow> string \<Rightarrow> string list" where
  "split_on sep [] = [[]]"
| "split_on sep (c # cs) =
     (if c = sep then [] # split_on sep cs
      else (case split_on sep cs of [] \<Rightarrow> [[c]] | s # ss \<Rightarrow> (c # s) # ss))"

text \<open>
  \<open>normalizeString\<close>: empty and \<open>.\<close> segments are dropped, \<open>..\<close> removes the segment
  before it. Above the root \<open>..\<close> is dropped, unless \<open>allowAboveRoot\<close>, which keeps it.
\<close>

definition normalize_step :: "bool \<Rightarrow> string list \<Rightarrow> string \<Rightarrow> string list" where
  "normalize_step allowAboveRoot stack seg =
     (if seg = [] \<or> seg = ''.'' then stack
      else if seg = ''..'' then
        (if stack \<noteq> [] \<and> last stack \<noteq> ''..'' then butlast stack
         else if allowAboveRoot then stack @ [''..'']
         else stack)
      else stack @ [seg])"

definition normalize_segments :: "bool \<Rightarrow> string list \<Rightarrow> string list" where
  "normalize_segments allowAboveRoot segs = foldl (normalize_step allowAboveRoot) [] segs"

definition is_absolute :: "string \<Rightarrow> bool" where
  "is_absolute p = (case p of [] \<Rightarrow> False | c # cs \<Rightarrow> c = CHR ''/'')"

text \<open>The segments of \<open>path.resolve(cwd, inputPath)\<close>, for an absolute \<open>cwd\<close>.\<close>

definition resolve_segments :: "string \<Rightarrow> string \<Rightarrow> string list" where
  "resolve_segments cwd inputPath =
     normalize_segments False
       (split_on CHR ''/''
          (if inputPath = [] then cwd @ ''/''
           else if is_absolute inputPath then inputPath @ ''/''
           else cwd @ ''/'' @ inputPath @ ''/''))"

definition path_resolve :: "string \<Rightarrow> string \<Rightarrow> string" where
  "path_resolve cwd inputPath = ''/'' @ js_join ''/'' (resolve_segments cwd inputPath)"

fun common_prefix_length :: "string list \<Rightarrow> string list \<Rightarrow> nat" where
  "common_prefix_length (x # xs) (y # ys) = (if x = y then Suc (common_prefix_length xs ys) else 0)"
| "common_prefix_length xs ys = 0"

text \<open>
  \<open>path.relative(from, to)\<close> for absolute paths: up from \<open>base\<close> (\<open>from\<close>) to the
  common ancestor, then down to \<open>target\<close> (\<open>to\<close>).
\<close>

definition path_relative :: "string \<Rightarrow> string \<Rightarrow> string" where
  "path_relative base target =
     (let fs = resolve_segments base [];
          ts = resolve_segments target [];
          k = common_prefix_length fs ts
      in js_join ''/'' (replicate (length fs - k) ''..'' @ drop k ts))"

text \<open>\<open>path.join(a, b)\<close> for non-empty parts: \<open>path.normalize(a + '/' + b)\<close>.\<close>

definition path_normalize :: "string \<Rightarrow> string" where
  "path_normalize p =
     (let body = js_join ''/'' (normalize_segments (\<not> is_absolute p) (split_on CHR ''/'' p));
          body1 = (if body \<noteq> [] \<and> p \<noteq> [] \<and> last p = CHR ''/'' then body @ ''/'' else body)
      in if is_absolute p then ''/'' @ body1
         else if body = [] then (if p \<noteq> [] \<and> last p = CHR ''/'' then ''./'' else ''.'')
         else body1)"

definition path_join :: "string \<Rightarrow> string \<Rightarrow> string" where
  "path_join a b = path_normalize (a @ ''/'' @ b)"

text \<open>\<open>path.basename(p)\<close>: the last segment, trailing separators aside.\<close>

definition path_basename :: "string \<Rightarrow> string" where
  "path_basename p =
     (case filter (\<lambda>s. s \<noteq> []) (split_on CHR ''/'' p) of [] \<Rightarrow> [] | segs \<Rightarrow> last segs)"

subsection \<open>The file system and the regular expressions of the runtime\<close>

datatype node_kind = File | Directory | Other

text \<open>
  What the validator reads from its environment: \<open>process.cwd()\<close>, \<open>fs.statSync\<close>
  (\<open>None\<close> for a path that does not exist), \<open>fs.readFileSync\<close> (\<open>None\<close> when it throws),
  and \<open>new RegExp(source).test(text)\<close> (\<open>None\<close> when the constructor throws on the source).
\<close>

record fs_env =
  cwd :: string
  stat :: "string \<Rightarrow> node_kind option"
  read_file :: "string \<Rightarrow> string option"
  regexp_test :: "string \<Rightarrow> string \<Rightarrow> bool option"

subsection \<open>Ignore patterns (tools/shared/gitignore)\<close>

definition replace_char :: "char \<Rightarrow> string \<Rightarrow> string \<Rightarrow> string" where
  "replace_char c new s = concat (map (\<lambda>x. if x = c then new else [x]) s)"

text \<open>
  One pattern against a path: \<open>Some True\<close> is \<open>return true\<close>, \<open>Some False\<close> goes on with
  the next pattern, \<open>None\<close> is the exception of the \<open>RegExp\<close> constructor.
\<close>

definition pattern_matches :: "fs_env \<Rightarrow> string \<Rightarrow> string \<Rightarrow> bool option" where
  "pattern_matches env filePath pattern =
     (let fileName = path_basename filePath
      in if pattern = [] \<or> prefix ''#'' pattern then Some False
         else if last pattern = CHR ''/'' then Some (sublist (butlast pattern) filePath)
         else if CHR ''*'' \<in> set pattern then
           (let source = ''^'' @ replace_char CHR ''?'' ''.'' (replace_char CHR ''*'' ''.*'' pattern) @ ''$''
            in case regexp_test env source fileName of
                 None \<Rightarrow> None
               | Some True \<Rightarrow> Some True
               | Some False \<Rightarrow> regexp_test env source filePath)
         else Some (fileName = pattern \<or> sublist pattern filePath))"

fun matchesGitignorePattern :: "fs_env \<Rightarrow> string \<Rightarrow> string list \<Rightarrow> bool option" where
  "matchesGitignorePattern env filePath [] = Some False"
| "matchesGitignorePattern env filePath (pattern # patterns) =
     (case pattern_matches env filePath pattern of
        None \<Rightarrow> None
      | Some True \<Rightarrow> Some True
      | Some False \<Rightarrow> matchesGitignorePattern env filePath patterns)"

definition loadGitignorePatterns :: "fs_env \<Rightarrow> string \<Rightarrow> string list" where
  "loadGitignorePatterns env dirPath =
     (let gitignorePath = path_join dirPath ''.gitignore''
      in if stat env gitignorePath = None then []
         else (case read_file env gitignorePath of
                 None \<Rightarrow> []
               | Some text \<Rightarrow>
                   filter (\<lambda>line. line \<noteq> [] \<and> \<not> prefix ''#'' line)
                     (map js_trim (split_on CHR 0x0A text))))"

subsection \<open>The validator\<close>

text \<open>
  The result shape \<open>{valid, absolutePath?, stats?, error?}\<close> of the validator; \<open>ok\<close> is
  its \<open>valid\<close> field.
\<close>

record CheckResult =
  ok :: bool
  absolutePath :: "string option"
  stats :: "node_kind option"
  error :: "string option"

definition rejected :: "string \<Rightarrow> CheckResult" where
  "rejected e = \<lparr>ok = False, absolutePath = None, stats = None, error = Some e\<rparr>"

definition validatePath :: "fs_env \<Rightarrow> string \<Rightarrow> string \<Rightarrow> CheckResult" where
  "validatePath env inputPath operation =
     (let resolved = path_resolve (cwd env) inputPath
      in if \<not> prefix (cwd env) resolved
         then rejected (''Access denied: Cannot '' @ operation @ '' outside the current directory'')
         else \<lparr>ok = True, absolutePath = Some resolved, stats = None, error = None\<rparr>)"

text \<open>\<open>blockEugentDirectory\<close>: \<open>Some e\<close> is \<open>{blocked: true, error: e}\<close>.\<close>

definition blockEugentDirectory :: "fs_env \<Rightarrow> string \<Rightarrow> string \<Rightarrow> string option" where
  "blockEugentDirectory env resolved operation =
     (let relativePath = path_relative (cwd env) resolved
      in if prefix ''.eugent/'' relativePath \<or> relativePath = ''.eugent''
         then Some (''Access denied: Cannot '' @ operation @ '' .eugent configuration directory'')
         else None)"

definition validateResourceType :: "fs_env \<Rightarrow> string \<Rightarrow> node_kind \<Rightarrow> string \<Rightarrow> CheckResult" where
  "validateResourceType env resolved expectedType inputPath =
     (case stat env resolved of
        None \<Rightarrow>
          rejected ((if expectedType = File then ''File'' else ''Directory'') @ '' not found: '' @ inputPath)
      | Some kind \<Rightarrow>
          if kind = expectedType
          then \<lparr>ok = True, absolutePath = None, stats = Some kind, error = None\<rparr>
          else \<lparr>ok = False, absolutePath = None, stats = Some kind,
                error = Some (''Path is not a '' @ (if expectedType = File then ''file'' else ''directory'')
                                @ '': '' @ inputPath)\<rparr>)"

text \<open>
  \<open>checkGitignoreAccess\<close>: \<open>Got None\<close> is \<open>{allowed: true}\<close>, \<open>Got (Some e)\<close> is
  \<open>{allowed: false, error: e}\<close>, \<open>Threw\<close> the exception of a pattern that is no regular
  expression.
\<close>

definition checkGitignoreAccess :: "fs_env \<Rightarrow> string \<Rightarrow> bool \<Rightarrow> string \<Rightarrow> string option attempt" where
  "checkGitignoreAccess env resolved includeGitignored operation =
     (if includeGitignored then Got None
      else
        (let patterns = loadGitignorePatterns env (cwd env);
             relativePath = path_relative (cwd env) resolved
         in case matchesGitignorePattern env relativePath patterns of
              None \<Rightarrow> Threw
            | Some True \<Rightarrow>
                Got (Some (''Access denied: Cannot '' @ operation @ '' gitignored path: '' @ relativePath))
            | Some False \<Rightarrow> Got None))"

definition validateFilePath :: "fs_env \<Rightarrow> string \<Rightarrow> string \<Rightarrow> bool \<Rightarrow> CheckResult attempt" where
  "validateFilePath env inputPath operation includeGitignored =
     (let pathCheck = validatePath env inputPath operation
      in if \<not> ok pathCheck then Got pathCheck
         else case absolutePath pathCheck of
           None \<Rightarrow> Threw
         | Some resolved \<Rightarrow>
             (case blockEugentDirectory env resolved operation of
                Some e \<Rightarrow> Got (rejected e)
              | None \<Rightarrow>
                  (let resourceCheck = validateResourceType env resolved File inputPath
                   in if \<not> ok resourceCheck then Got resourceCheck
                      else (case checkGitignoreAccess env resolved includeGitignored operation of
                              Threw \<Rightarrow> Threw
                            | Got (Some e) \<Rightarrow> Got (rejected e)
                            | Got None \<Rightarrow>
                                Got \<lparr>ok = True, absolutePath = Some resolved,
                                          stats = stats resourceCheck, error = None\<rparr>))))"

subsection \<open>Well-formed roots\<close>

text \<open>
  \<open>process.cwd()\<close> is an absolute, normalised path: \<open>/\<close> followed by segments that are
  non-empty, contain no separator and are neither \<open>.\<close> nor \<open>..\<close>, joined by \<open>/\<close>.
\<close>

definition wf_segment :: "string \<Rightarrow> bool" where
  "wf_segment s = (s \<noteq> [] \<and> CHR ''/'' \<notin> set s \<and> s \<noteq> ''.'' \<and> s \<noteq> ''..'')"

definition abs_path :: "string list \<Rightarrow> string" where
  "abs_path segs = ''/'' @ js_join ''/'' segs"

definition in_memory :: "(string \<times> node_kind) list \<Rightarrow> string \<Rightarrow> fs_env" where
  "in_memory files dir =
     \<lparr>cwd = dir, stat = map_of files, read_file = (\<lambda>p. None), regexp_test = (\<lambda>source text. None)\<rparr>"

definition project_files :: "(string \<times> node_kind) list" where
  "project_files = [(''/a/proj/sub/f.txt'', File), (''/a/proj/sub'', Directory), (''/a/proj'', Directory)]"

section \<open>Tool names (validateToolName)\<close>

subsection \<open>Regular expressions\<close>

text \<open>
  The regular expressions of the runtime, as far as the name pattern needs them: character
  classes, alternation, sequence and repetition. \<open>regexp_matches r s\<close> is
  \<open>/^r$/.test(s)\<close>: the whole text has to match. It is computed by taking the residual
  expression after each character.
\<close>

datatype regexp =
    Never
  | Blank
  | OneOf "char \<Rightarrow> bool"
  | Either regexp regexp
  | Then regexp regexp
  | Many regexp

fun accepts_blank :: "regexp \<Rightarrow> bool" where
  "accepts_blank Never = False"
| "accepts_blank Blank = True"
| "accepts_blank (OneOf p) = False"
| "accepts_blank (Either r s) = (accepts_blank r \<or> accepts_blank s)"
| "accepts_blank (Then r s) = (accepts_blank r \<and> accepts_blank s)"
| "accepts_blank (Many r) = True"

fun residual :: "char \<Rightarrow> regexp \<Rightarrow> regexp" where
  "residual c Never = Never"
| "residual c Blank = Never"
| "residual c (OneOf p) = (if p c then Blank else Never)"
| "residual c (Either r s) = Either (residual c r) (residual c s)"
| "residual c (Then r s) =
     (if accepts_blank r then Either (Then (residual c r) s) (residual c s)
      else Then (residual c r) s)"
| "residual c (Many r) = Then (residual c r) (Many r)"

definition regexp_matches :: "regexp \<Rightarrow> string \<Rightarrow> bool" where
  "regexp_matches r s = accepts_blank (foldl (\<lambda>q c. residual c q) r s)"

text \<open>\<open>r+\<close>.\<close>

definition at_least_one :: "regexp \<Rightarrow> regexp" where
  "at_least_one r = Then r (Many r)"

text \<open>The class \<open>[a-zA-Z0-9_-]\<close>.\<close>

definition name_char :: "char \<Rightarrow> bool" where
  "name_char c =
     ((97 \<le> char_code c \<and> char_code c \<le> 122) \<or> (65 \<le> char_code c \<and> char_code c \<le> 90)
      \<or> (48 \<le> char_code c \<and> char_code c \<le> 57) \<or> c = CHR ''_'' \<or> c = CHR ''-'')"

text \<open>\<open>/^[a-zA-Z0-9_-]+(\.[a-zA-Z0-9_-]+)*$/\<close>.\<close>

definition tool_name_regexp :: regexp where
  "tool_name_regexp =
     Then (at_least_one (OneOf name_char))
          (Many (Then (OneOf (\<lambda>c. c = CHR ''.'')) (at_least_one (OneOf name_char))))"

subsection \<open>validateToolName\<close>

definition invalid_name_text :: "string \<Rightarrow> string" where
  "invalid_name_text toolName =
     ''Invalid tool name format: '' @ dquote @ toolName @ dquote
       @ ''. Tool names must only contain letters, numbers, underscores, dashes, and non-consecutive dots. Do NOT include parentheses or function call syntax.''"

definition validateToolName :: "string \<Rightarrow> string \<Rightarrow> ToolCallValidationResult" where
  "validateToolName toolName callId =
     (if \<not> regexp_matches tool_name_regexp toolName \<or> sublist ''..'' toolName then
        \<lparr>tcv_valid = False, tcv_toolName = None, tcv_toolArgs = None,
         tcv_errorMessage = Some
           \<lparr>msg_id = None, role = ''tool'',
            content = Some (stringify_error (invalid_name_text toolName)),
            toolCalls = None, name = Some toolName, toolCallId = Some callId,
            toolArgs = Some (JObject []), usage = None\<rparr>\<rparr>
      else
        \<lparr>tcv_valid = True, tcv_toolName = Some toolName, tcv_toolArgs = None,
         tcv_errorMessage = None\<rparr>)"

subsection \<open>Names in the words of the specification\<close>

text \<open>
  A name made of segments joined by single dots, each segment a non-empty run of
  characters of \<open>[A-Za-z0-9_-]\<close>.
\<close>

definition dotted_name :: "string \<Rightarrow> bool" where
  "dotted_name s = list_all (\<lambda>seg. seg \<noteq> [] \<and> list_all name_char seg) (split_on CHR ''.'' s)"

subsection \<open>The language of a regular expression\<close>

definition conc :: "string set \<Rightarrow> string set \<Rightarrow> string set" where
  "conc A B = {xs @ ys | xs ys. xs \<in> A \<and> ys \<in> B}"

inductive_set star :: "string set \<Rightarrow> string set" for A :: "string set" where
  star_empty: "[] \<in> star A"
| star_more: "xs \<in> A \<Longrightarrow> ys \<in> star A \<Longrightarrow> xs @ ys \<in> star A"

fun lang :: "regexp \<Rightarrow> string set" where
  "lang Never = {}"
| "lang Blank = {[]}"
| "lang (OneOf p) = {[c] | c. p c}"
| "lang (Either r s) = lang r \<union> lang s"
| "lang (Then r s) = conc (lang r) (lang s)"
| "lang (Many r) = star (lang r)"

text \<open>Runs of name characters, and runs of a dot followed by name characters.\<close>

abbreviation name_run :: "string set" where
  "name_run \<equiv> {w. w \<noteq> [] \<and> list_all name_char w}"

abbreviation dot_runs :: "string set" where
  "dot_runs \<equiv> star (conc {[c] | c. c = CHR ''.''} name_run)"

section \<open>Executing one tool call (useToolExecutor, registry, manage\_todos)\<close>

text \<open>
  What \<open>executeToolCall\<close> takes from outside the core:
  the list \<open>allowedTools\<close> of the configuration; the answer of the user to a permission
  prompt; the texts of the errors of the JavaScript engine (of the \<open>SyntaxError\<close> of
  \<open>JSON.parse\<close> for a raw text, and of the \<open>TypeError\<close> for reading a property, given by
  its name, of \<open>null\<close>); the conversion of a decoded value that is not a string to the
  text that a template literal shows, which can throw; and, for a name, the entry of a
  table other than the ones written out below. An exception is \<open>Inl\<close> with its message.
\<close>

record tool_env =
  allowedTools :: "string list"
  requestPermission :: "string \<Rightarrow> json \<Rightarrow> bool"
  syntax_error_message :: "string \<Rightarrow> string"
  null_property_message :: "string \<Rightarrow> string"
  value_text :: "json \<Rightarrow> string + js_string"
  inherited_formatter :: "string \<Rightarrow> json \<Rightarrow> string + js_string"
  table_executor :: "string \<Rightarrow> json \<Rightarrow> ToolContext \<Rightarrow> string + string"

text \<open>
  The tables \<open>formatters\<close> and \<open>toolExecutors\<close> are object literals: a lookup by a name
  that is not a key of the literal finds the member of \<open>Object.prototype\<close> of that name,
  if there is one.
\<close>

definition object_prototype_names :: "string list" where
  "object_prototype_names =
     [''constructor'', ''__defineGetter__'', ''__defineSetter__'', ''hasOwnProperty'',
      ''__lookupGetter__'', ''__lookupSetter__'', ''isPrototypeOf'', ''propertyIsEnumerable'',
      ''toString'', ''valueOf'', ''__proto__'', ''toLocaleString'']"

subsection \<open>formatToolStatus\<close>

text \<open>\<open>`${v}`\<close> for a decoded value: a string is shown as it is.\<close>

definition template_text :: "tool_env \<Rightarrow> json \<Rightarrow> string + js_string" where
  "template_text env v = (case v of JString s \<Rightarrow> Inr s | _ \<Rightarrow> value_text env v)"

text \<open>
  One formatter: \<open>args.key ? `before${args.key}after` : otherwise\<close>. Reading the
  property of \<open>null\<close> throws.
\<close>

definition status_detail ::
    "tool_env \<Rightarrow> json \<Rightarrow> string \<Rightarrow> string \<Rightarrow> string \<Rightarrow> string \<Rightarrow> string + js_string" where
  "status_detail env args key before after otherwise =
     (case get_prop args key of
        Threw \<Rightarrow> Inl (null_property_message env key)
      | Got None \<Rightarrow> Inr (code_units otherwise)
      | Got (Some v) \<Rightarrow>
          if js_truthy v then
            (case template_text env v of
               Inl message \<Rightarrow> Inl message
             | Inr shown \<Rightarrow> Inr (code_units before @ shown @ code_units after))
          else Inr (code_units otherwise))"

definition formatToolStatus :: "tool_env \<Rightarrow> string \<Rightarrow> json \<Rightarrow> string + js_string" where
  "formatToolStatus env toolName args =
     (if toolName = ''execute_command'' then status_detail env args ''command'' '' ('' '')'' ''''
      else if toolName = ''read_file'' then status_detail env args ''file_path'' '' ('' '')'' ''''
      else if toolName = ''write_file'' then status_detail env args ''file_path'' '' ('' '')'' ''''
      else if toolName = ''edit_file'' then status_detail env args ''file_path'' '' ('' '')'' ''''
      else if toolName = ''delete_file'' then status_detail env args ''file_path'' '' ('' '')'' ''''
      else if toolName = ''list_files''
      then status_detail env args ''directory_path'' '' ('' '')'' '' (current directory)''
      else if toolName = ''find_files'' then status_detail env args ''pattern'' '' ('' '')'' ''''
      else if toolName = ''grep''
      then status_detail env args ''pattern'' ('' ('' @ dquote) (dquote @ '')'') ''''
      else if toolName \<in> set object_prototype_names then inherited_formatter env toolName args
      else Inr [])"

subsection \<open>executeManageTodos\<close>

definition is_string :: "json option \<Rightarrow> bool" where
  "is_string v = (case v of Some (JString s) \<Rightarrow> True | _ \<Rightarrow> False)"

definition is_boolean :: "json option \<Rightarrow> bool" where
  "is_boolean v = (case v of Some (JBool b) \<Rightarrow> True | _ \<Rightarrow> False)"

definition failed_todos_text :: "string \<Rightarrow> string" where
  "failed_todos_text message = stringify_error (''Failed to manage todos: '' @ message)"

definition bad_todo_text :: string where
  "bad_todo_text =
     stringify_error (''Each todo must have a string '' @ dquote @ ''task'' @ dquote
        @ '' and boolean '' @ dquote @ ''completed'' @ dquote @ '' field'')"

text \<open>
  The loop \<open>for (const todo of args.todos)\<close>: \<open>Some\<close> with the text that the function
  returns from inside the loop (also through the \<open>catch\<close>, when an entry is \<open>null\<close>),
  \<open>None\<close> when the loop ends.
\<close>

fun check_todos :: "(string \<Rightarrow> string) \<Rightarrow> json list \<Rightarrow> string option" where
  "check_todos type_error [] = None"
| "check_todos type_error (todo # rest) =
     (case get_prop todo ''task'' of
        Threw \<Rightarrow> Some (failed_todos_text (type_error ''task''))
      | Got task \<Rightarrow>
          if \<not> is_string task then Some bad_todo_text
          else (case get_prop todo ''completed'' of
                  Threw \<Rightarrow> Some (failed_todos_text (type_error ''completed''))
                | Got completed \<Rightarrow>
                    if \<not> is_boolean completed then Some bad_todo_text
                    else check_todos type_error rest))"

definition executeManageTodos :: "(string \<Rightarrow> string) \<Rightarrow> json \<Rightarrow> string" where
  "executeManageTodos type_error args =
     (case get_prop args ''todos'' of
        Threw \<Rightarrow> failed_todos_text (type_error ''todos'')
      | Got (Some (JArray entries)) \<Rightarrow>
          (case check_todos type_error entries of
             Some text \<Rightarrow> text
           | None \<Rightarrow>
               stringify_fields [(''success'', FBool True), (''count'', FInt (int (length entries)))])
      | Got _ \<Rightarrow> stringify_error ''todos must be an array'')"

subsection \<open>executeTool and requiresPermission\<close>

definition registered_tools :: "string list" where
  "registered_tools =
     [''read_file'', ''list_files'', ''execute_command'', ''find_files'', ''grep'', ''write_file'',
      ''delete_file'', ''edit_file'', ''manage_todos'', ''web_fetch'', ''github_search'',
      ''npm_search'']"

text \<open>
  \<open>toolExecutors[toolName]\<close>. The executor of manage\_todos is the function above; the
  other executors of the table, and what the table inherits, come from outside.
\<close>

definition toolExecutors ::
    "tool_env \<Rightarrow> string \<Rightarrow> (json \<Rightarrow> ToolContext \<Rightarrow> string + string) option" where
  "toolExecutors env toolName =
     (if toolName = ''manage_todos''
      then Some (\<lambda>args context. Inr (executeManageTodos (null_property_message env) args))
      else if toolName \<in> set registered_tools \<or> toolName \<in> set object_prototype_names
      then Some (table_executor env toolName)
      else None)"

definition executeTool :: "tool_env \<Rightarrow> string \<Rightarrow> json \<Rightarrow> ToolContext \<Rightarrow> string" where
  "executeTool env toolName args context =
     (case toolExecutors env toolName of
        None \<Rightarrow> stringify_error (''Unknown tool: '' @ toolName)
      | Some executor \<Rightarrow>
          (case executor args context of
             Inr text \<Rightarrow> text
           | Inl message \<Rightarrow> stringify_error (''Tool execution failed: '' @ message)))"

definition requiresPermission :: "string \<Rightarrow> string list \<Rightarrow> bool" where
  "requiresPermission toolName allowed = (toolName \<notin> set allowed)"

subsection \<open>executeToolCall\<close>

text \<open>
  The state that \<open>executeToolCall\<close> writes: the status line (\<open>setStatusMessage\<close>) and the
  todo list of the session (\<open>setTodos\<close>), which takes whatever \<open>toolArgs.todos\<close> holds.
\<close>

record ui_state =
  ui_status :: js_string
  ui_todos :: json

text \<open>\<open>!v\<close> for the result of a property access.\<close>

definition absent_or_falsy :: "json option \<Rightarrow> bool" where
  "absent_or_falsy v = (case v of None \<Rightarrow> True | Some x \<Rightarrow> \<not> js_truthy x)"

text \<open>
  \<open>executeToolCall\<close>. \<open>aborted\<close> is the state of the signal that goes into the context
  of the tool. The non-null assertions \<open>errorMessage!\<close>, \<open>toolName!\<close> and \<open>toolArgs!\<close>
  read fields that \<open>validateToolName\<close> and \<open>parseToolArguments\<close> set in the branch
  concerned. An exception of \<open>formatToolStatus\<close> is not caught. In the block for
  manage\_todos an exception inside the \<open>try\<close> is logged and leaves the state as it is.
\<close>

definition executeToolCall ::
    "tool_env \<Rightarrow> ToolCall \<Rightarrow> Message list \<Rightarrow> bool \<Rightarrow> ui_state \<Rightarrow> exec_result \<times> ui_state" where
  "executeToolCall env toolCall conversationHistory aborted ui =
     (let nameValidation = validateToolName (fn_name toolCall) (call_id toolCall)
      in if \<not> tcv_valid nameValidation
         then (ValidationFailed (the (tcv_errorMessage nameValidation)), ui)
         else
           (let argsValidation =
                  parseToolArguments (syntax_error_message env) (the (tcv_toolName nameValidation))
                    (fn_arguments toolCall) (call_id toolCall)
            in if \<not> tcv_valid argsValidation
               then (ValidationFailed (the (tcv_errorMessage argsValidation)), ui)
               else
                 (let toolName = the (tcv_toolName argsValidation);
                      args = the (tcv_toolArgs argsValidation)
                  in case formatToolStatus env toolName args of
                       Inl message \<Rightarrow> (Crashed message, ui)
                     | Inr statusDetails \<Rightarrow>
                         (let ui1 = ui\<lparr>ui_status := code_units (''Executing '' @ toolName)
                                        @ statusDetails @ code_units ''...''\<rparr>;
                              history = extractToolCallHistory conversationHistory;
                              context = \<lparr>allToolCalls = Some (fst history),
                                         lastToolCall = snd history, signal = Some aborted\<rparr>;
                              permissionDenied =
                                (requiresPermission toolName (allowedTools env)
                                 \<and> \<not> requestPermission env toolName args);
                              toolResult =
                                (if permissionDenied
                                 then stringify_error ''Permission denied by user. STOP IMMEDIATELY.''
                                 else executeTool env toolName args context);
                              toolMessage =
                                \<lparr>msg_id = None, role = ''tool'', content = Some toolResult,
                                 toolCalls = None, name = Some toolName,
                                 toolCallId = Some (call_id toolCall), toolArgs = Some args,
                                 usage = None\<rparr>
                          in (Executed toolMessage permissionDenied,
                              if toolName = ''manage_todos'' \<and> \<not> permissionDenied then
                                (case JSON_parse toolResult of
                                   None \<Rightarrow> ui1
                                 | Some result \<Rightarrow>
                                     (case get_prop result ''error'' of
                                        Threw \<Rightarrow> ui1
                                      | Got e \<Rightarrow>
                                          if absent_or_falsy e then
                                            (case get_prop args ''todos'' of
                                               Threw \<Rightarrow> ui1
                                             | Got None \<Rightarrow> ui1
                                             | Got (Some t) \<Rightarrow>
                                                 if js_truthy t then ui1\<lparr>ui_todos := t\<rparr> else ui1)
                                          else ui1))
                              else ui1)))))"

text \<open>An environment and the calls used as examples.\<close>

definition example_env :: tool_env where
  "example_env =
     \<lparr>allowedTools = [''read_file'', ''manage_todos''],
      requestPermission = (\<lambda>toolName args. True),
      syntax_error_message = (\<lambda>raw. ''Unexpected end of JSON input''),
      null_property_message =
        (\<lambda>key. ''Cannot read properties of null (reading '' @ [CHR 0x27] @ key @ [CHR 0x27] @ '')''),
      value_text = (\<lambda>v. Inr []),
      inherited_formatter = (\<lambda>toolName args. Inr []),
      table_executor = (\<lambda>toolName args context. Inr ''{}'')\<rparr>"

definition idle_ui :: ui_state where
  "idle_ui = \<lparr>ui_status = [], ui_todos = JArray []\<rparr>"

definition null_call :: ToolCall where
  "null_call = mk_call ''call-1'' ''read_file'' ''null''"

definition null_call_announced :: Message where
  "null_call_announced = assistant_calls [] [null_call]"


section \<open>Splitting a string at a separator\<close>

lemma split_on_nonempty: "split_on c s \<noteq> []"
  by (induction s) (auto split: list.splits)

lemma split_on_append_sep: "split_on c (a @ c # b) = split_on c a @ split_on c b"
proof (induction a)
  case Nil
  then show ?case by simp
next
  case (Cons x a)
  obtain s ss where s: "split_on c a = s # ss"
    using split_on_nonempty [of c a] by (cases "split_on c a") auto
  show ?case using Cons.IH by (simp add: s)
qed

lemma split_on_no_sep: "c \<notin> set s \<Longrightarrow> split_on c s = [s]"
  by (induction s) auto

text \<open>The first segment of a split, and what follows it.\<close>

lemma split_on_first:
  "split_on c s = seg # rest \<Longrightarrow>
     c \<notin> set seg \<and> (rest = [] \<longrightarrow> s = seg) \<and>
     (rest \<noteq> [] \<longrightarrow> (\<exists>t. s = seg @ c # t \<and> split_on c t = rest))"
proof (induction s arbitrary: seg rest)
  case Nil
  then show ?case by simp
next
  case (Cons x s)
  show ?case
  proof (cases "x = c")
    case True
    then have "seg = []" "rest = split_on c s" using Cons.prems by auto
    then show ?thesis using True split_on_nonempty [of c s] by auto
  next
    case False
    obtain s1 ss where s: "split_on c s = s1 # ss"
      using split_on_nonempty [of c s] by (cases "split_on c s") auto
    then have e: "seg = x # s1" "rest = ss" using Cons.prems False by auto
    from Cons.IH [OF s] show ?thesis using False e by auto
  qed
qed

section \<open>Properties of the conversation validator\<close>

lemma pending_push_error [simp]: "v_pending (push_error e st) = v_pending st"
  by (simp add: push_error_def)

lemma pending_push_warning [simp]: "v_pending (push_warning e st) = v_pending st"
  by (simp add: push_warning_def)

lemma errors_push_error [simp]: "v_errors (push_error e st) = v_errors st @ [e]"
  by (simp add: push_error_def)

lemma errors_push_warning [simp]: "v_errors (push_warning e st) = v_errors st"
  by (simp add: push_warning_def)

lemma pending_check_tool_call:
  "set (v_pending (check_tool_call i st tc)) =
     set (v_pending st) \<union> (if call_id tc = [] then {} else {call_id tc})"
  by (auto simp: check_tool_call_def set_add_def Let_def)

lemma pending_foldl_calls:
  "set (v_pending (foldl (check_tool_call i) st tcs)) =
     set (v_pending st) \<union> set (filter (\<lambda>x. x \<noteq> []) (map call_id tcs))"
  by (induction tcs arbitrary: st) (auto simp: pending_check_tool_call)

lemma pending_check_message:
  "set (v_pending (check_message i prev m st)) =
     (set (v_pending st) \<union> set (announced_ids m)) - {x. answers m x}"
proof -
  consider (none) "role m = []" | (sys) "role m = ''system''" | (usr) "role m = ''user''"
    | (asst) "role m = ''assistant''" | (tool) "role m = ''tool''"
    | (other) "role m \<noteq> []" "role m \<noteq> ''system''" "role m \<noteq> ''user''"
        "role m \<noteq> ''assistant''" "role m \<noteq> ''tool''"
    by blast
  then show ?thesis
  proof cases
    case asst
    then show ?thesis
      by (simp add: check_message_def announced_ids_def answers_def pending_foldl_calls
            split: option.splits)
  next
    case tool
    then show ?thesis
      by (auto simp: check_message_def announced_ids_def answers_def Let_def set_delete_def
            split: option.splits)
  qed (simp_all add: check_message_def announced_ids_def answers_def Let_def)
qed

lemma announced_ids_other_role: "role m \<noteq> ''assistant'' \<Longrightarrow> announced_ids m = []"
  by (simp add: announced_ids_def)

lemma announced_not_answers: "x \<in> set (announced_ids m) \<Longrightarrow> \<not> answers m x"
proof
  assume a: "x \<in> set (announced_ids m)" and b: "answers m x"
  from b have "role m = ''tool''" by (simp add: answers_def)
  then have "announced_ids m = []" by (simp add: announced_ids_other_role)
  with a show False by simp
qed

lemma answered_later_Cons:
  "answered_later x (m # ms) \<longleftrightarrow> answers m x \<or> answered_later x ms"
  by (simp add: answered_later_def)

lemma answered_later_Nil [simp]: "\<not> answered_later x []"
  by (simp add: answered_later_def)

lemma pending_validate_loop:
  "x \<in> set (v_pending (validate_loop i prev ms st)) \<longleftrightarrow>
     (x \<in> set (v_pending st) \<and> \<not> answered_later x ms) \<or> x \<in> set (unanswered_ids ms)"
proof (induction ms arbitrary: i prev st)
  case Nil
  then show ?case by (simp add: unanswered_ids_def)
next
  case (Cons m ms)
  have disj: "x \<in> set (announced_ids m) \<Longrightarrow> \<not> answers m x"
    by (rule announced_not_answers)
  have "x \<in> set (v_pending (validate_loop i prev (m # ms) st)) \<longleftrightarrow>
        (x \<in> set (v_pending (check_message i prev m st)) \<and> \<not> answered_later x ms)
          \<or> x \<in> set (unanswered_ids ms)"
    by (simp add: Cons.IH)
  also have "\<dots> \<longleftrightarrow> (x \<in> set (v_pending st) \<and> \<not> answered_later x (m # ms))
          \<or> x \<in> set (unanswered_ids (m # ms))"
    unfolding pending_check_message answered_later_Cons unanswered_ids_def using disj by auto
  finally show ?case .
qed

lemma pending_scan: "set (v_pending (scan_messages ms)) = set (unanswered_ids ms)"
  by (auto simp: scan_messages_def pending_validate_loop)

lemma pending_scan_empty: "v_pending (scan_messages ms) = [] \<longleftrightarrow> unanswered_ids ms = []"
  using pending_scan [of ms] by (metis set_empty)

text \<open>Index form of the unanswered announcements.\<close>

lemma answered_later_nth:
  "answered_later x (drop (Suc i) ms) \<longleftrightarrow> (\<exists>j. i < j \<and> j < length ms \<and> answers (ms ! j) x)"
proof
  assume "answered_later x (drop (Suc i) ms)"
  then obtain k where k: "k < length (drop (Suc i) ms)" "answers (drop (Suc i) ms ! k) x"
    by (auto simp: answered_later_def list_ex_iff in_set_conv_nth)
  then have "i < Suc i + k \<and> Suc i + k < length ms \<and> answers (ms ! (Suc i + k)) x"
    by (simp add: add.commute)
  then show "\<exists>j. i < j \<and> j < length ms \<and> answers (ms ! j) x" by blast
next
  assume "\<exists>j. i < j \<and> j < length ms \<and> answers (ms ! j) x"
  then obtain j where j: "i < j" "j < length ms" "answers (ms ! j) x" by blast
  then have "j - Suc i < length (drop (Suc i) ms)" and "drop (Suc i) ms ! (j - Suc i) = ms ! j"
    by simp_all
  then have "ms ! j \<in> set (drop (Suc i) ms)"
    by (metis nth_mem)
  with j(3) show "answered_later x (drop (Suc i) ms)"
    by (auto simp: answered_later_def list_ex_iff)
qed

lemma unanswered_by_iff:
  "x \<in> set (unanswered_by f ms) \<longleftrightarrow>
     (\<exists>i<length ms. x \<in> set (f (ms ! i)) \<and> \<not> answered_later x (drop (Suc i) ms))"
proof (induction ms)
  case Nil
  then show ?case by simp
next
  case (Cons m ms)
  have "(\<exists>i<length (m # ms). x \<in> set (f ((m # ms) ! i)) \<and> \<not> answered_later x (drop (Suc i) (m # ms)))
        \<longleftrightarrow> (x \<in> set (f m) \<and> \<not> answered_later x ms)
              \<or> (\<exists>i<length ms. x \<in> set (f (ms ! i)) \<and> \<not> answered_later x (drop (Suc i) ms))"
    by (simp add: less_Suc_eq_0_disj ex_disj_distrib conj_disj_distribR)
       (metis nth_Cons_Suc drop_Suc_Cons)
  then show ?case using Cons.IH by auto
qed

lemma unanswered_ids_empty_iff:
  "unanswered_ids ms = [] \<longleftrightarrow>
     (\<forall>i<length ms. \<forall>x\<in>set (announced_ids (ms ! i)).
        \<exists>j. i < j \<and> j < length ms \<and> answers (ms ! j) x)"
proof -
  have "unanswered_ids ms = [] \<longleftrightarrow> (\<forall>x. x \<notin> set (unanswered_ids ms))"
    by (metis all_not_in_conv set_empty)
  then show ?thesis
    unfolding unanswered_ids_def unanswered_by_iff answered_later_nth by blast
qed

lemma validateMessages_errors:
  "errors (validateMessages ms) =
     v_errors (scan_messages ms)
       @ (if unanswered_ids ms = [] then [] else [pending_error (v_pending (scan_messages ms))])"
proof (cases "ms = []")
  case True
  then show ?thesis
    by (simp add: validateMessages_def scan_messages_def unanswered_ids_def)
next
  case False
  then show ?thesis
    using pending_scan_empty [of ms]
    by (simp add: validateMessages_def Let_def)
qed

lemma validateMessages_valid: "valid (validateMessages ms) \<longleftrightarrow> errors (validateMessages ms) = []"
  by (simp add: validateMessages_def Let_def)

text \<open>The error list only grows during the scan.\<close>

lemma errors_check_tool_call:
  "length (v_errors st) \<le> length (v_errors (check_tool_call i st tc))"
  by (simp add: check_tool_call_def Let_def)

lemma errors_check_tool_call_no_id:
  "call_id tc = [] \<Longrightarrow> length (v_errors st) < length (v_errors (check_tool_call i st tc))"
  by (simp add: check_tool_call_def Let_def)

lemma errors_foldl_calls:
  "length (v_errors st) \<le> length (v_errors (foldl (check_tool_call i) st tcs))"
proof (induction tcs arbitrary: st)
  case Nil
  then show ?case by simp
next
  case (Cons tc tcs)
  have "length (v_errors st) \<le> length (v_errors (check_tool_call i st tc))"
    by (rule errors_check_tool_call)
  also have "\<dots> \<le> length (v_errors (foldl (check_tool_call i) (check_tool_call i st tc) tcs))"
    by (rule Cons.IH)
  finally show ?case by simp
qed

lemma errors_foldl_calls_no_id:
  "tc \<in> set tcs \<Longrightarrow> call_id tc = [] \<Longrightarrow>
   length (v_errors st) < length (v_errors (foldl (check_tool_call i) st tcs))"
proof (induction tcs arbitrary: st)
  case Nil
  then show ?case by simp
next
  case (Cons a tcs)
  show ?case
  proof (cases "a = tc")
    case True
    have "length (v_errors st) < length (v_errors (check_tool_call i st a))"
      using True Cons.prems(2) by (simp add: errors_check_tool_call_no_id)
    also have "\<dots> \<le> length (v_errors (foldl (check_tool_call i) (check_tool_call i st a) tcs))"
      by (rule errors_foldl_calls)
    finally show ?thesis by simp
  next
    case False
    then have "tc \<in> set tcs" using Cons.prems(1) by simp
    have "length (v_errors st) \<le> length (v_errors (check_tool_call i st a))"
      by (rule errors_check_tool_call)
    also have "\<dots> < length (v_errors (foldl (check_tool_call i) (check_tool_call i st a) tcs))"
      using \<open>tc \<in> set tcs\<close> Cons.prems(2) by (rule Cons.IH)
    finally show ?thesis by simp
  qed
qed

lemma errors_check_message:
  "length (v_errors st) \<le> length (v_errors (check_message i prev m st))"
proof -
  consider (none) "role m = []" | (sys) "role m = ''system''" | (usr) "role m = ''user''"
    | (asst) "role m = ''assistant''" | (tool) "role m = ''tool''"
    | (other) "role m \<noteq> []" "role m \<noteq> ''system''" "role m \<noteq> ''user''"
        "role m \<noteq> ''assistant''" "role m \<noteq> ''tool''"
    by blast
  then show ?thesis
  proof cases
    case asst
    then show ?thesis
      by (simp add: check_message_def errors_foldl_calls split: option.splits)
  next
    case tool
    then show ?thesis
      by (simp add: check_message_def Let_def split: option.splits)
  qed (simp_all add: check_message_def Let_def)
qed

lemma errors_validate_loop:
  "length (v_errors st) \<le> length (v_errors (validate_loop i prev ms st))"
proof (induction ms arbitrary: i prev st)
  case Nil
  then show ?case by simp
next
  case (Cons m ms)
  have "length (v_errors st) \<le> length (v_errors (check_message i prev m st))"
    by (rule errors_check_message)
  also have "\<dots> \<le> length (v_errors (validate_loop (Suc i) (Some m) ms (check_message i prev m st)))"
    by (rule Cons.IH)
  finally show ?case by simp
qed

lemma validate_loop_append:
  "validate_loop i prev (xs @ ys) st =
     validate_loop (i + length xs) (if xs = [] then prev else Some (last xs)) ys
       (validate_loop i prev xs st)"
  by (induction xs arbitrary: i prev st) simp_all

lemma errors_scan_no_id:
  assumes "i < length ms" "role (ms ! i) = ''assistant''" "toolCalls (ms ! i) = Some tcs"
    "tc \<in> set tcs" "call_id tc = []"
  shows "v_errors (scan_messages ms) \<noteq> []"
proof -
  define st0 where "st0 = \<lparr>v_errors = [], v_warnings = [], v_pending = []\<rparr>"
  define st1 where "st1 = validate_loop 0 None (take i ms) st0"
  define prev where "prev = (if take i ms = [] then None else Some (last (take i ms)))"
  have split: "ms = take i ms @ ms ! i # drop (Suc i) ms"
    using assms(1) by (simp add: id_take_nth_drop)
  have "scan_messages ms = validate_loop 0 None (take i ms @ ms ! i # drop (Suc i) ms) st0"
    using split by (simp add: scan_messages_def st0_def)
  also have "\<dots> = validate_loop (Suc (length (take i ms))) (Some (ms ! i)) (drop (Suc i) ms)
                      (check_message (length (take i ms)) prev (ms ! i) st1)"
    by (simp add: validate_loop_append st1_def prev_def)
  finally have eq: "scan_messages ms =
      validate_loop (Suc (length (take i ms))) (Some (ms ! i)) (drop (Suc i) ms)
        (check_message (length (take i ms)) prev (ms ! i) st1)" .
  have "length (v_errors st1) < length (v_errors (check_message (length (take i ms)) prev (ms ! i) st1))"
    using assms(2,3) errors_foldl_calls_no_id [OF assms(4,5)]
    by (simp add: check_message_def)
  also have "\<dots> \<le> length (v_errors (scan_messages ms))"
    unfolding eq by (rule errors_validate_loop)
  finally show ?thesis by auto
qed

text \<open>
  Claim C2, as the code has it. \<open>validateMessages\<close> reports zero errors if and only if
  no per-message check of the scan fails and every non-empty id announced by an assistant
  message has at least one later tool message with that \<open>toolCallId\<close>. Unanswered ids
  add exactly one error to the list, whatever their number: the length of the error list is
  the number of failed per-message checks, plus one when some id is unanswered.
\<close>

theorem validateMessages_zero_errors_iff:
  "(errors (validateMessages ms) = [] \<longleftrightarrow>
      v_errors (scan_messages ms) = [] \<and>
      (\<forall>i<length ms. \<forall>x\<in>set (announced_ids (ms ! i)).
         \<exists>j. i < j \<and> j < length ms \<and> answers (ms ! j) x))
   \<and> length (errors (validateMessages ms)) =
       length (v_errors (scan_messages ms)) + (if unanswered_ids ms = [] then 0 else 1)"
  unfolding unanswered_ids_empty_iff [symmetric]
  by (simp add: validateMessages_errors)

theorem validateMessages_zero_errors_iff_witness:
  "errors (validateMessages answered_twice) = []
   \<and> length (errors (validateMessages two_unanswered)) = 1"
proof -
  have a: "v_errors (scan_messages answered_twice) = []" by code_simp
  have b: "unanswered_ids answered_twice = []" by code_simp
  have c: "v_errors (scan_messages two_unanswered) = []" by code_simp
  have d: "unanswered_ids two_unanswered \<noteq> []" by code_simp
  show ?thesis
    using validateMessages_zero_errors_iff [of answered_twice]
      validateMessages_zero_errors_iff [of two_unanswered]
      a b c d unanswered_ids_empty_iff [of answered_twice]
    by simp
qed

theorem validateMessages_counterexample:
  "length (errors (validateMessages two_unanswered)) = 1
   \<and> length (remdups (unanswered_ids two_unanswered)) = 2
   \<and> errors (validateMessages answered_twice) = []
   \<and> count_answers ''a'' (drop 2 answered_twice) = 2"
  by code_simp

text \<open>
  Claim C7, as the code has it. The validator keeps the announced ids in a set and has no
  uniqueness check. A transcript in which one assistant message announces two tool calls
  with the same id is reported invalid when that id is empty, or when no later tool message
  carries it.
\<close>

theorem validateMessages_duplicate_id:
  assumes "i < length ms" and "role (ms ! i) = ''assistant''" and "toolCalls (ms ! i) = Some tcs"
    and "j < length tcs" and "k < length tcs" and "j \<noteq> k"
    and "call_id (tcs ! j) = call_id (tcs ! k)"
    and "call_id (tcs ! j) = [] \<or>
         (\<forall>l. i < l \<and> l < length ms \<longrightarrow> \<not> answers (ms ! l) (call_id (tcs ! j)))"
  shows "\<not> valid (validateMessages ms)"
proof (cases "call_id (tcs ! j) = []")
  case True
  have "tcs ! j \<in> set tcs" using assms(4) by simp
  then have "v_errors (scan_messages ms) \<noteq> []"
    using errors_scan_no_id [OF assms(1-3) _ True] by blast
  then show ?thesis
    by (simp add: validateMessages_valid validateMessages_errors)
next
  case False
  define x where "x = call_id (tcs ! j)"
  have "x \<in> set (announced_ids (ms ! i))"
    using assms(2-4) False by (auto simp: announced_ids_def x_def)
  moreover have "\<not> answered_later x (drop (Suc i) ms)"
    using assms(8) False unfolding answered_later_nth x_def by blast
  ultimately have "x \<in> set (unanswered_ids ms)"
    unfolding unanswered_ids_def unanswered_by_iff using assms(1) by blast
  then have "unanswered_ids ms \<noteq> []" by auto
  then show ?thesis
    by (simp add: validateMessages_valid validateMessages_errors)
qed

theorem validateMessages_duplicate_id_witness:
  "\<not> valid (validateMessages duplicate_unanswered)"
proof -
  have tc: "toolCalls (duplicate_unanswered ! 1) =
      Some [mk_call ''a'' ''read_file'' ''{}'', mk_call ''a'' ''grep'' ''{}'']"
    by (simp add: duplicate_unanswered_def assistant_calls_def plain_message_def)
  have r: "role (duplicate_unanswered ! 1) = ''assistant''"
    by (simp add: duplicate_unanswered_def assistant_calls_def plain_message_def)
  show ?thesis
    by (rule validateMessages_duplicate_id [where i = 1 and j = 0 and k = 1, OF _ r tc])
       (simp_all add: duplicate_unanswered_def mk_call_def answers_def assistant_calls_def
          plain_message_def)
qed

theorem validateMessages_duplicate_id_counterexample:
  "valid (validateMessages duplicate_answered) \<and> errors (validateMessages duplicate_answered) = []"
  by code_simp

section \<open>Properties of the conversation healer\<close>























lemma splice_at_Nil [simp]: "splice_at n [] xs = xs"
  by (simp add: splice_at_def)









lemma registered_ids_orphan [simp]: "registered_ids (orphan_message orphan) = []"
  by (simp add: registered_ids_def orphan_message_def)













section \<open>Properties of the tool-call preprocessor\<close>

lemma JSON_parse_open_brace: "JSON_parse ''{'' = None"
  by code_simp

lemma JSON_parse_empty_object: "JSON_parse ''{}'' = Some (JObject [])"
  by code_simp

lemma JSON_parse_undefined: "JSON_parse ''undefined'' = None"
  by code_simp

lemma JSON_parse_null: "JSON_parse ''null'' = Some JNull"
  by code_simp

lemma json_escape_plain: "concat (map json_escape_char ''. Raw arguments: {'') = ''. Raw arguments: {''"
  by code_simp

lemma raw_text_in_error:
  "sublist ''Raw arguments: {''
     (stringify_error (''Invalid JSON in tool arguments: '' @ reason @ ''. Raw arguments: '' @ ''{''))"
proof -
  have "stringify_error (''Invalid JSON in tool arguments: '' @ reason @ ''. Raw arguments: '' @ ''{'')
        = (''{'' @ json_quote ''error'' @ '':'' @ dquote
             @ concat (map json_escape_char (''Invalid JSON in tool arguments: '' @ reason)) @ ''. '')
          @ ''Raw arguments: {'' @ (dquote @ ''}'')"
    using json_escape_plain by (simp add: stringify_error_def json_quote_def)
  then show ?thesis
    unfolding sublist_def by blast
qed

text \<open>
  \<open>parseToolArguments\<close> at four raw texts. Decoding \<open>{\<close> fails, and the synthetic tool
  message (role \<open>tool\<close>, same \<open>toolCallId\<close>) carries the raw text after
  \<open>Raw arguments:\<close>; decoding \<open>{}\<close> gives the empty object; decoding \<open>undefined\<close>
  fails; decoding \<open>null\<close> gives the value \<open>null\<close> as the arguments.
\<close>

lemma parseToolArguments_four_texts:
  "\<not> tcv_valid (parseToolArguments sem n ''{'' cid)
   \<and> (\<exists>m c. tcv_errorMessage (parseToolArguments sem n ''{'' cid) = Some m
          \<and> role m = ''tool'' \<and> toolCallId m = Some cid \<and> content m = Some c
          \<and> sublist ''Raw arguments: {'' c)
   \<and> parseToolArguments sem n ''{}'' cid =
       \<lparr>tcv_valid = True, tcv_toolName = Some n, tcv_toolArgs = Some (JObject []),
        tcv_errorMessage = None\<rparr>
   \<and> \<not> tcv_valid (parseToolArguments sem n ''undefined'' cid)
   \<and> parseToolArguments sem n ''null'' cid =
       \<lparr>tcv_valid = True, tcv_toolName = Some n, tcv_toolArgs = Some JNull,
        tcv_errorMessage = None\<rparr>"
  using raw_text_in_error [of "sem ''{''"]
  by (simp add: parseToolArguments_def JSON_parse_open_brace JSON_parse_empty_object
        JSON_parse_undefined JSON_parse_null)


lemma history_step_null_payload:
  assumes "content msg = Some c" and "JSON_parse c = Some JNull"
  shows "history_step st msg = st"
  using assms by (simp add: history_step_def get_prop_def split: option.splits)


section \<open>Abort handling\<close>

text \<open>
  When the announcing assistant message is the last entry, as it is when the loop throws
  before the transcript is published again, every call of it gets an aborted result.
\<close>

lemma handleAbortError_last_assistant:
  assumes "role m = ''assistant''" and "toolCalls m = Some tcs" and "tcs \<noteq> []"
  shows "handleAbortError (history @ [m]) =
         history @ [m] @ map abort_message tcs @ [interrupted_message]"
  using assms by (simp add: handleAbortError_def)

lemma abort_inside_loop:
  assumes "run_tool_calls events (history @ [m]) = LoopAborted"
  shows "tool_phase history m events aborted_after = AbortSurfaced (handleAbortError (history @ [m]))"
  using assms by (simp add: tool_phase_def)

text \<open>
  Claim C4 at a transcript in which the announcing assistant message is no longer the last
  entry. The assistant message announces the calls \<open>a\<close> and \<open>b\<close>; the user aborts while
  the permission prompt for \<open>a\<close> is open and then denies it. The loop appends the denial
  for \<open>a\<close>, leaves by \<open>break\<close>, publishes the transcript and throws at the check after
  the loop. \<open>handleAbortError\<close> finds a tool message last and appends only the
  interruption notice: the call \<open>b\<close> stays unanswered in the surfaced transcript.
\<close>

theorem abort_leaves_call_unanswered:
  "denied_then_abort =
     AbortSurfaced [plain_message ''user'' (Some ''hi''), two_calls, denied_message, interrupted_message]
   \<and> unanswered_ids [plain_message ''user'' (Some ''hi''), two_calls, denied_message, interrupted_message]
       = [''b'']
   \<and> \<not> valid (validateMessages
         [plain_message ''user'' (Some ''hi''), two_calls, denied_message, interrupted_message])"
  by code_simp

section \<open>Command execution\<close>

text \<open>Without a cancelled signal the command is spawned and the invocation is pending.\<close>

lemma not_aborted_spawns:
  assumes "\<not> context_aborted context"
  shows "spawned (snd (executeExecuteCommand args context pid w)) = spawned w @ [command args]
         \<and> (\<exists>s. fst (executeExecuteCommand args context pid w) = Running s \<and> es_resolved s = None)"
  using assms by (simp add: executeExecuteCommand_def Let_def)

text \<open>
  Claim C10. When the cancellation signal is already set at the call,
  \<open>executeExecuteCommand\<close> resolves at once to the aborted payload: \<open>aborted\<close> is true,
  the command is echoed, both buffers are empty, and no process is spawned.
\<close>

theorem pre_aborted_short_circuit:
  assumes "context = Some c" and "signal c = Some True"
  shows "executeExecuteCommand args context pid w =
     (Resolved (stringify_fields
        [(''error'', FStr aborted_text), (''aborted'', FBool True), (''command'', FStr (command args)),
         (''stdout'', FStr []), (''stderr'', FStr [])]), w)
     \<and> spawned (snd (executeExecuteCommand args context pid w)) = spawned w"
  using assms by (simp add: executeExecuteCommand_def context_aborted_def Let_def)

theorem pre_aborted_short_circuit_witness:
  "spawned (snd (executeExecuteCommand sleep_command cancelled_context (Some 42) \<lparr>spawned = []\<rparr>)) = []
   \<and> (\<exists>text. fst (executeExecuteCommand sleep_command cancelled_context (Some 42) \<lparr>spawned = []\<rparr>)
          = Resolved text
        \<and> JSON_parse text = Some (JObject
             [(code_units ''error'', JString (code_units aborted_text)),
              (code_units ''aborted'', JBool True),
              (code_units ''command'', JString (code_units ''sleep 5'')),
              (code_units ''stdout'', JString []), (code_units ''stderr'', JString [])]))"
proof -
  have c: "cancelled_context = Some \<lparr>allToolCalls = None, lastToolCall = None, signal = Some True\<rparr>"
    by (simp add: cancelled_context_def)
  have s: "signal \<lparr>allToolCalls = None, lastToolCall = None, signal = Some True\<rparr> = Some True"
    by simp
  note t = pre_aborted_short_circuit [OF c s, of sleep_command "Some 42" "\<lparr>spawned = []\<rparr>"]
  have p: "JSON_parse (stringify_fields
        [(''error'', FStr aborted_text), (''aborted'', FBool True),
         (''command'', FStr (command sleep_command)),
         (''stdout'', FStr []), (''stderr'', FStr [])]) = Some (JObject
             [(code_units ''error'', JString (code_units aborted_text)),
              (code_units ''aborted'', JBool True),
              (code_units ''command'', JString (code_units ''sleep 5'')),
              (code_units ''stdout'', JString []), (code_units ''stderr'', JString [])])"
    by code_simp
  from t p show ?thesis by simp
qed

section \<open>Properties of the path validator\<close>

lemma split_on_join:
  "cs \<noteq> [] \<Longrightarrow> \<forall>s\<in>set cs. c \<notin> set s \<Longrightarrow> split_on c (js_join [c] cs) = cs"
proof (induction "[c]" cs rule: js_join.induct)
  case 1
  then show ?case by simp
next
  case (2 x)
  then show ?case by (simp add: split_on_no_sep)
next
  case (3 x y ys)
  have "split_on c (js_join [c] (x # y # ys)) = split_on c (x @ c # js_join [c] (y # ys))"
    by simp
  also have "\<dots> = split_on c x @ split_on c (js_join [c] (y # ys))"
    by (rule split_on_append_sep)
  also have "\<dots> = [x] @ (y # ys)"
    using 3 by (simp add: split_on_no_sep)
  finally show ?case by simp
qed

lemma normalize_push:
  "list_all wf_segment cs \<Longrightarrow> foldl (normalize_step a) st cs = st @ cs"
  by (induction cs arbitrary: st) (auto simp: normalize_step_def wf_segment_def)

lemma split_abs_path:
  "list_all wf_segment cs \<Longrightarrow>
   foldl (normalize_step a) [] (split_on CHR ''/'' (abs_path cs)) = cs"
proof (cases "cs = []")
  case True
  then show ?thesis by (simp add: abs_path_def normalize_step_def)
next
  case False
  assume wf: "list_all wf_segment cs"
  then have "\<forall>s\<in>set cs. CHR ''/'' \<notin> set s"
    by (auto simp: list_all_iff wf_segment_def)
  then have "split_on CHR ''/'' (abs_path cs) = [] # cs"
    using False split_on_join [of cs "CHR ''/''"] by (simp add: abs_path_def)
  then show ?thesis using wf by (simp add: normalize_step_def normalize_push)
qed

lemma resolve_segments_relative:
  assumes "list_all wf_segment cs" and "inp \<noteq> []" and "\<not> is_absolute inp"
  shows "resolve_segments (abs_path cs) inp =
         foldl (normalize_step False) cs (split_on CHR ''/'' (inp @ ''/''))"
proof -
  have "resolve_segments (abs_path cs) inp =
        foldl (normalize_step False) [] (split_on CHR ''/'' (abs_path cs @ CHR ''/'' # (inp @ ''/'')))"
    using assms(2,3) by (simp add: resolve_segments_def normalize_segments_def)
  also have "\<dots> = foldl (normalize_step False) cs (split_on CHR ''/'' (inp @ ''/''))"
    unfolding split_on_append_sep foldl_append split_abs_path [OF assms(1)] ..
  finally show ?thesis .
qed

lemma resolve_segments_self:
  assumes "list_all wf_segment cs"
  shows "resolve_segments (abs_path cs) [] = cs"
proof -
  have "resolve_segments (abs_path cs) [] =
        foldl (normalize_step False) [] (split_on CHR ''/'' (abs_path cs @ CHR ''/'' # []))"
    by (simp add: resolve_segments_def normalize_segments_def)
  also have "\<dots> = foldl (normalize_step False) cs (split_on CHR ''/'' [])"
    unfolding split_on_append_sep foldl_append split_abs_path [OF assms(1)] ..
  finally show ?thesis by (simp add: normalize_step_def)
qed

lemma common_prefix_length_append: "common_prefix_length cs (cs @ rest) = length cs"
  by (induction cs) auto

lemma path_relative_below:
  assumes "list_all wf_segment cs" and "list_all wf_segment rest"
  shows "path_relative (abs_path cs) (abs_path (cs @ rest)) = js_join ''/'' rest"
proof -
  have "list_all wf_segment (cs @ rest)" using assms by simp
  then show ?thesis
    using assms(1)
    by (simp add: path_relative_def resolve_segments_self common_prefix_length_append Let_def)
qed

lemma resolve_sub_file:
  assumes "list_all wf_segment cs"
  shows "path_resolve (abs_path cs) ''sub/f.txt'' = abs_path (cs @ [''sub'', ''f.txt''])"
proof -
  have "split_on CHR ''/'' (''sub/f.txt'' @ ''/'') = [''sub'', ''f.txt'', []]" by simp
  then show ?thesis
    using resolve_segments_relative [OF assms, of "''sub/f.txt''"]
    by (simp add: path_resolve_def abs_path_def is_absolute_def normalize_step_def)
qed

lemma resolve_parent_etc:
  assumes "list_all wf_segment cs"
  shows "path_resolve (abs_path cs) ''../etc/passwd'' = abs_path (butlast cs @ [''etc'', ''passwd''])"
proof -
  have s: "split_on CHR ''/'' (''../etc/passwd'' @ ''/'') = [''..'', ''etc'', ''passwd'', []]" by simp
  have "cs \<noteq> [] \<Longrightarrow> last cs \<noteq> ''..''"
    using assms by (auto simp: list_all_iff wf_segment_def)
  then have "normalize_step False cs ''..'' = butlast cs"
    by (cases "cs = []") (auto simp: normalize_step_def)
  then show ?thesis
    using resolve_segments_relative [OF assms, of "''../etc/passwd''"]
    by (simp add: path_resolve_def abs_path_def is_absolute_def s)
       (simp add: normalize_step_def)
qed

lemma abs_path_concat: "cs \<noteq> [] \<Longrightarrow> abs_path cs = concat (map (\<lambda>s. CHR ''/'' # s) cs)"
proof (induction "''/''" cs rule: js_join.induct)
  case 1
  then show ?case by simp
next
  case (2 x)
  then show ?case by (simp add: abs_path_def)
next
  case (3 x y ys)
  then show ?case by (simp add: abs_path_def)
qed

lemma abs_path_prefix: "prefix (abs_path cs) (abs_path (cs @ rest))"
proof (cases "cs = []")
  case True
  then show ?thesis by (simp add: abs_path_def)
next
  case False
  then show ?thesis by (simp add: abs_path_concat)
qed

lemma segment_prefix_of_etc:
  assumes "prefix l ''etc/passwd''" and "CHR ''/'' \<notin> set l" and "l \<noteq> []"
  shows "l = ''e'' \<or> l = ''et'' \<or> l = ''etc''"
proof -
  have "l \<in> set (prefixes ''etc/passwd'')"
    unfolding in_set_prefixes by (rule assms(1))
  then show ?thesis using assms(2,3) by auto
qed

lemma parent_etc_outside:
  assumes "list_all wf_segment cs" and "cs \<noteq> []"
    and "last cs \<noteq> ''e''" and "last cs \<noteq> ''et''" and "last cs \<noteq> ''etc''"
  shows "\<not> prefix (abs_path cs) (abs_path (butlast cs @ [''etc'', ''passwd'']))"
proof
  assume p: "prefix (abs_path cs) (abs_path (butlast cs @ [''etc'', ''passwd'']))"
  have cs: "cs = butlast cs @ [last cs]" using assms(2) by simp
  have l: "CHR ''/'' \<notin> set (last cs)" "last cs \<noteq> []"
    using assms(1,2) by (auto simp: list_all_iff wf_segment_def)
  have "abs_path cs = concat (map (\<lambda>s. CHR ''/'' # s) (butlast cs)) @ CHR ''/'' # last cs"
    using abs_path_concat [OF assms(2)] cs by (metis concat.simps(1,2) concat_append list.simps(8,9) map_append append_Nil2)
  moreover have "abs_path (butlast cs @ [''etc'', ''passwd'']) =
      concat (map (\<lambda>s. CHR ''/'' # s) (butlast cs)) @ CHR ''/'' # ''etc/passwd''"
    by (simp add: abs_path_concat)
  ultimately have "prefix (last cs) ''etc/passwd''" using p by simp
  from segment_prefix_of_etc [OF this l] assms(3-5) show False by blast
qed

text \<open>
  Claim C6. Under the root \<open>/a/proj\<close> the input \<open>../proj2/f.txt\<close> resolves to
  \<open>/a/proj2/f.txt\<close>, in a sibling of the root: the segments of the root are no prefix of
  the segments of the resolved path, and the way from the root to it starts with \<open>..\<close>.
  \<open>validatePath\<close> accepts it all the same, since the root is a prefix of the resolved
  path as a string.
\<close>

theorem validatePath_accepts_sibling:
  "validatePath \<lparr>cwd = ''/a/proj'', stat = st, read_file = rf, regexp_test = rt\<rparr>
      ''../proj2/f.txt'' ''read''
     = \<lparr>ok = True, absolutePath = Some ''/a/proj2/f.txt'', stats = None, error = None\<rparr>
   \<and> resolve_segments ''/a/proj'' ''../proj2/f.txt'' = [''a'', ''proj2'', ''f.txt'']
   \<and> resolve_segments ''/a/proj'' [] = [''a'', ''proj'']
   \<and> \<not> prefix [''a'', ''proj''] [''a'', ''proj2'', ''f.txt'']
   \<and> path_relative ''/a/proj'' ''/a/proj2/f.txt'' = ''../proj2/f.txt''"
proof -
  have r: "resolve_segments ''/a/proj'' ''../proj2/f.txt'' = [''a'', ''proj2'', ''f.txt'']"
    by code_simp
  have c: "resolve_segments ''/a/proj'' [] = [''a'', ''proj'']"
    by code_simp
  have rel: "path_relative ''/a/proj'' ''/a/proj2/f.txt'' = ''../proj2/f.txt''"
    by code_simp
  show ?thesis
    by (simp add: validatePath_def path_resolve_def r c rel)
qed

theorem validatePath_accepts_sibling_witness:
  "ok (validatePath (in_memory project_files ''/a/proj'') ''../proj2/f.txt'' ''read'')
   \<and> absolutePath (validatePath (in_memory project_files ''/a/proj'') ''../proj2/f.txt'' ''read'')
       = Some ''/a/proj2/f.txt''"
  using validatePath_accepts_sibling [of "map_of project_files" "\<lambda>p. None" "\<lambda>source text. None"]
  by (simp add: in_memory_def)

text \<open>
  Claim C5, as the code has it, for a root \<open>C\<close> with the segments \<open>cs\<close>.
  Resolving \<open>sub/f.txt\<close>, when that file exists as a regular file and the ignore check
  allows it, yields \<open>valid = true\<close> with the absolute path \<open>C/sub/f.txt\<close>.
  Resolving \<open>../etc/passwd\<close> yields \<open>valid = false\<close> with the error about leaving the
  current directory, when the root is not \<open>/\<close> and its last segment is none of \<open>e\<close>,
  \<open>et\<close>, \<open>etc\<close>. A path that resolves into the \<open>.eugent\<close> directory of the root yields
  \<open>valid = false\<close> with the error about the configuration directory, whatever the file
  system holds: that check comes before the existence check.
\<close>

theorem validateFilePath_cases:
  assumes wf: "list_all wf_segment cs" and cwd: "cwd env = abs_path cs"
  shows "(stat env (abs_path (cs @ [''sub'', ''f.txt''])) = Some File \<and>
          checkGitignoreAccess env (abs_path (cs @ [''sub'', ''f.txt''])) incl op = Got None
          \<longrightarrow> validateFilePath env ''sub/f.txt'' op incl =
                Got \<lparr>ok = True, absolutePath = Some (abs_path (cs @ [''sub'', ''f.txt''])),
                     stats = Some File, error = None\<rparr>)
       \<and> (cs \<noteq> [] \<and> last cs \<noteq> ''e'' \<and> last cs \<noteq> ''et'' \<and> last cs \<noteq> ''etc''
          \<longrightarrow> validateFilePath env ''../etc/passwd'' op incl =
                Got (rejected (''Access denied: Cannot '' @ op @ '' outside the current directory'')))
       \<and> (list_all wf_segment rest \<and>
          path_resolve (cwd env) p = abs_path (cs @ ''.eugent'' # rest)
          \<longrightarrow> validateFilePath env p op incl =
                Got (rejected (''Access denied: Cannot '' @ op @ '' .eugent configuration directory'')))"
proof (intro conjI impI)
  assume a: "stat env (abs_path (cs @ [''sub'', ''f.txt''])) = Some File \<and>
          checkGitignoreAccess env (abs_path (cs @ [''sub'', ''f.txt''])) incl op = Got None"
  have res: "path_resolve (abs_path cs) ''sub/f.txt'' = abs_path (cs @ [''sub'', ''f.txt''])"
    by (rule resolve_sub_file [OF wf])
  have vp: "validatePath env ''sub/f.txt'' op =
        \<lparr>ok = True, absolutePath = Some (abs_path (cs @ [''sub'', ''f.txt''])), stats = None, error = None\<rparr>"
    using abs_path_prefix [of cs "[''sub'', ''f.txt'']"] by (simp add: validatePath_def res cwd)
  have wf2: "list_all wf_segment [''sub'', ''f.txt'']" by (simp add: wf_segment_def)
  have rel: "path_relative (abs_path cs) (abs_path (cs @ [''sub'', ''f.txt''])) = ''sub/f.txt''"
    unfolding path_relative_below [OF wf wf2] by simp
  have blk: "blockEugentDirectory env (abs_path (cs @ [''sub'', ''f.txt''])) op = None"
    by (simp add: blockEugentDirectory_def cwd rel)
  show "validateFilePath env ''sub/f.txt'' op incl =
        Got \<lparr>ok = True, absolutePath = Some (abs_path (cs @ [''sub'', ''f.txt''])),
             stats = Some File, error = None\<rparr>"
    using a by (simp add: validateFilePath_def vp blk validateResourceType_def)
next
  assume b: "cs \<noteq> [] \<and> last cs \<noteq> ''e'' \<and> last cs \<noteq> ''et'' \<and> last cs \<noteq> ''etc''"
  have res: "path_resolve (abs_path cs) ''../etc/passwd'' = abs_path (butlast cs @ [''etc'', ''passwd''])"
    by (rule resolve_parent_etc [OF wf])
  have "\<not> prefix (abs_path cs) (abs_path (butlast cs @ [''etc'', ''passwd'']))"
    using parent_etc_outside [OF wf] b by blast
  then have "validatePath env ''../etc/passwd'' op =
        rejected (''Access denied: Cannot '' @ op @ '' outside the current directory'')"
    by (simp add: validatePath_def cwd res)
  then show "validateFilePath env ''../etc/passwd'' op incl =
        Got (rejected (''Access denied: Cannot '' @ op @ '' outside the current directory''))"
    by (simp add: validateFilePath_def rejected_def)
next
  assume c: "list_all wf_segment rest \<and>
          path_resolve (cwd env) p = abs_path (cs @ ''.eugent'' # rest)"
  have res: "path_resolve (abs_path cs) p = abs_path (cs @ ''.eugent'' # rest)"
    using c cwd by simp
  have vp: "validatePath env p op =
        \<lparr>ok = True, absolutePath = Some (abs_path (cs @ ''.eugent'' # rest)), stats = None, error = None\<rparr>"
    using abs_path_prefix [of cs "''.eugent'' # rest"] by (simp add: validatePath_def cwd res)
  have wf2: "list_all wf_segment (''.eugent'' # rest)" using c by (simp add: wf_segment_def)
  have rel: "path_relative (abs_path cs) (abs_path (cs @ ''.eugent'' # rest)) = js_join ''/'' (''.eugent'' # rest)"
    by (rule path_relative_below [OF wf wf2])
  have "prefix ''.eugent/'' (js_join ''/'' (''.eugent'' # rest)) \<or> js_join ''/'' (''.eugent'' # rest) = ''.eugent''"
    by (cases rest) simp_all
  then have blk: "blockEugentDirectory env (abs_path (cs @ ''.eugent'' # rest)) op =
        Some (''Access denied: Cannot '' @ op @ '' .eugent configuration directory'')"
    by (simp add: blockEugentDirectory_def cwd rel)
  show "validateFilePath env p op incl =
        Got (rejected (''Access denied: Cannot '' @ op @ '' .eugent configuration directory''))"
    by (simp add: validateFilePath_def vp blk)
qed

theorem validateFilePath_cases_witness:
  "validateFilePath (in_memory project_files ''/a/proj'') ''sub/f.txt'' ''read'' False =
     Got \<lparr>ok = True, absolutePath = Some ''/a/proj/sub/f.txt'', stats = Some File, error = None\<rparr>
   \<and> validateFilePath (in_memory project_files ''/a/proj'') ''../etc/passwd'' ''read'' False =
     Got (rejected ''Access denied: Cannot read outside the current directory'')
   \<and> validateFilePath (in_memory project_files ''/a/proj'') ''.eugent/missing.json'' ''read'' False =
     Got (rejected ''Access denied: Cannot read .eugent configuration directory'')"
proof -
  let ?env = "in_memory project_files ''/a/proj''"
  have wf: "list_all wf_segment [''a'', ''proj'']" by (simp add: wf_segment_def)
  have cwd: "cwd ?env = abs_path [''a'', ''proj'']" by (simp add: in_memory_def abs_path_def)
  have st: "stat ?env (abs_path ([''a'', ''proj''] @ [''sub'', ''f.txt''])) = Some File"
    by (simp add: in_memory_def abs_path_def project_files_def)
  have gi: "checkGitignoreAccess ?env (abs_path ([''a'', ''proj''] @ [''sub'', ''f.txt''])) False ''read'' = Got None"
    by code_simp
  have wfr: "list_all wf_segment [''missing.json'']" by (simp add: wf_segment_def)
  have rs: "path_resolve (cwd ?env) ''.eugent/missing.json'' =
            abs_path ([''a'', ''proj''] @ ''.eugent'' # [''missing.json''])"
    by code_simp
  note t = validateFilePath_cases [OF wf cwd, of False "''read''" "[''missing.json'']" "''.eugent/missing.json''"]
  from t st gi wfr rs show ?thesis by (simp add: abs_path_def)
qed

theorem validateFilePath_root_counterexample:
  "validateFilePath (in_memory [(''/etc/passwd'', File)] ''/'') ''../etc/passwd'' ''read'' False =
     Got \<lparr>ok = True, absolutePath = Some ''/etc/passwd'', stats = Some File, error = None\<rparr>
   \<and> validateFilePath (in_memory [(''/etc/passwd'', File)] ''/etc'') ''../etc/passwd'' ''read'' False =
     Got \<lparr>ok = True, absolutePath = Some ''/etc/passwd'', stats = Some File, error = None\<rparr>"
  by code_simp

section \<open>Properties of the tool-name check\<close>

subsection \<open>The matcher decides the language\<close>

lemma accepts_blank_lang: "accepts_blank r \<longleftrightarrow> [] \<in> lang r"
  by (induction r) (auto simp: conc_def intro: star.intros)

lemma conc_Cons:
  "c # s \<in> conc A B \<longleftrightarrow> (\<exists>u v. s = u @ v \<and> c # u \<in> A \<and> v \<in> B) \<or> ([] \<in> A \<and> c # s \<in> B)"
  by (auto simp: conc_def Cons_eq_append_conv)

lemma star_Cons_step:
  "w \<in> star A \<Longrightarrow> w = c # s \<Longrightarrow> \<exists>u v. s = u @ v \<and> c # u \<in> A \<and> v \<in> star A"
proof (induction arbitrary: s rule: star.induct)
  case star_empty
  then show ?case by simp
next
  case (star_more xs ys)
  show ?case
  proof (cases xs)
    case Nil
    then show ?thesis using star_more by simp
  next
    case (Cons x xs')
    then have "s = xs' @ ys" "c # xs' \<in> A" using star_more.prems star_more.hyps(1) by auto
    then show ?thesis using star_more.hyps(2) by blast
  qed
qed

lemma star_Cons:
  "c # s \<in> star A \<longleftrightarrow> (\<exists>u v. s = u @ v \<and> c # u \<in> A \<and> v \<in> star A)"
proof
  assume "c # s \<in> star A"
  then show "\<exists>u v. s = u @ v \<and> c # u \<in> A \<and> v \<in> star A"
    using star_Cons_step by blast
next
  assume "\<exists>u v. s = u @ v \<and> c # u \<in> A \<and> v \<in> star A"
  then obtain u v where "s = u @ v" "c # u \<in> A" "v \<in> star A" by blast
  then show "c # s \<in> star A"
    using star_more [of "c # u" A v] by simp
qed

lemma lang_residual: "s \<in> lang (residual c r) \<longleftrightarrow> c # s \<in> lang r"
proof (induction r arbitrary: s)
  case (Then r1 r2)
  show ?case
    by (auto simp: conc_Cons accepts_blank_lang Then.IH) (auto simp: conc_def Then.IH)
next
  case (Many r)
  show ?case
    by (auto simp: star_Cons Many.IH) (auto simp: conc_def Many.IH)
qed auto

lemma regexp_matches_lang: "regexp_matches r s \<longleftrightarrow> s \<in> lang r"
proof (induction s arbitrary: r)
  case Nil
  then show ?case by (simp add: regexp_matches_def accepts_blank_lang)
next
  case (Cons c s)
  have "regexp_matches r (c # s) = regexp_matches (residual c r) s"
    by (simp add: regexp_matches_def)
  then show ?case by (simp add: Cons.IH lang_residual)
qed

subsection \<open>The language of the name pattern\<close>

lemma name_char_dot: "\<not> name_char CHR ''.''"
  by (simp add: name_char_def char_code_def)

lemma name_chars_no_dot: "list_all name_char w \<Longrightarrow> CHR ''.'' \<notin> set w"
  using name_char_dot by (auto simp: list_all_iff)

lemma star_chars: "star {[c] | c. p c} = {w. list_all p w}"
proof (intro set_eqI iffI)
  fix w assume "w \<in> star {[c] | c. p c}"
  then show "w \<in> {w. list_all p w}"
    by (induction rule: star.induct) auto
next
  fix w assume "w \<in> {w. list_all p w}"
  then have "list_all p w" by simp
  then show "w \<in> star {[c] | c. p c}"
  proof (induction w)
    case Nil
    show ?case by (rule star_empty)
  next
    case (Cons a w)
    then have "[a] \<in> {[c] | c. p c}" "w \<in> star {[c] | c. p c}" by auto
    then have "[a] @ w \<in> star {[c] | c. p c}" by (rule star_more)
    then show ?case by simp
  qed
qed

lemma lang_at_least_one: "lang (at_least_one (OneOf p)) = {w. w \<noteq> [] \<and> list_all p w}"
proof -
  have "conc {[c] | c. p c} {w. list_all p w} = {w. w \<noteq> [] \<and> list_all p w}"
  proof (intro set_eqI iffI)
    fix w assume "w \<in> conc {[c] | c. p c} {w. list_all p w}"
    then show "w \<in> {w. w \<noteq> [] \<and> list_all p w}" by (auto simp: conc_def)
  next
    fix w assume "w \<in> {w. w \<noteq> [] \<and> list_all p w}"
    then obtain a v where "w = [a] @ v" "p a" "list_all p v" by (cases w) auto
    then show "w \<in> conc {[c] | c. p c} {w. list_all p w}" unfolding conc_def by blast
  qed
  then show ?thesis by (simp add: at_least_one_def star_chars)
qed

lemma lang_tool_name: "lang tool_name_regexp = conc name_run dot_runs"
  by (simp add: tool_name_regexp_def lang_at_least_one del: lang.simps(3))
     (simp add: at_least_one_def)

lemma dotted_name_single: "w \<in> name_run \<Longrightarrow> dotted_name w"
  using name_chars_no_dot [of w] by (simp add: dotted_name_def split_on_no_sep)

lemma dotted_name_extend:
  assumes "w \<in> name_run" and "dotted_name t"
  shows "dotted_name (w @ CHR ''.'' # t)"
  using assms name_chars_no_dot [of w]
  by (simp add: dotted_name_def split_on_append_sep split_on_no_sep)

lemma dot_runs_forward:
  "v \<in> dot_runs \<Longrightarrow> v = [] \<or> (\<exists>t. v = CHR ''.'' # t \<and> dotted_name t)"
proof (induction rule: star.induct)
  case star_empty
  then show ?case by simp
next
  case (star_more xs ys)
  from star_more.hyps(1) obtain w where w: "xs = CHR ''.'' # w" "w \<in> name_run"
    by (auto simp: conc_def)
  from star_more.IH show ?case
  proof
    assume "ys = []"
    then show ?thesis using w dotted_name_single by auto
  next
    assume "\<exists>t. ys = CHR ''.'' # t \<and> dotted_name t"
    then obtain t where "ys = CHR ''.'' # t" "dotted_name t" by blast
    then show ?thesis using w dotted_name_extend by auto
  qed
qed

lemma dot_runs_backward_segments:
  "split_on CHR ''.'' t = segs \<Longrightarrow> dotted_name t \<Longrightarrow> CHR ''.'' # t \<in> dot_runs"
proof (induction segs arbitrary: t)
  case Nil
  then show ?case using split_on_nonempty by blast
next
  case (Cons seg rest)
  note first = split_on_first [OF Cons.prems(1)]
  have seg: "seg \<in> name_run"
    using Cons.prems by (simp add: dotted_name_def)
  then have one: "CHR ''.'' # seg \<in> conc {[c] | c. c = CHR ''.''} name_run"
    unfolding conc_def by (auto intro: exI [of _ "[CHR ''.'']"])
  show ?case
  proof (cases "rest = []")
    case True
    then have "t = seg" using first by simp
    moreover have "(CHR ''.'' # seg) @ [] \<in> dot_runs"
      using one star_empty by (rule star_more)
    ultimately show ?thesis by simp
  next
    case False
    then obtain t' where t': "t = seg @ CHR ''.'' # t'" "split_on CHR ''.'' t' = rest"
      using first by blast
    have "dotted_name t'"
      using Cons.prems t'(2) by (simp add: dotted_name_def)
    then have "CHR ''.'' # t' \<in> dot_runs"
      using Cons.IH [OF t'(2)] by simp
    with one have "(CHR ''.'' # seg) @ (CHR ''.'' # t') \<in> dot_runs"
      by (rule star_more)
    then show ?thesis using t'(1) by simp
  qed
qed

lemma tool_name_lang_dotted: "s \<in> lang tool_name_regexp \<longleftrightarrow> dotted_name s"
proof
  assume "s \<in> lang tool_name_regexp"
  then obtain w v where wv: "s = w @ v" "w \<in> name_run" "v \<in> dot_runs"
    unfolding lang_tool_name conc_def by blast
  from dot_runs_forward [OF wv(3)] show "dotted_name s"
  proof
    assume "v = []"
    then show ?thesis using wv dotted_name_single by simp
  next
    assume "\<exists>t. v = CHR ''.'' # t \<and> dotted_name t"
    then show ?thesis using wv dotted_name_extend by auto
  qed
next
  assume d: "dotted_name s"
  obtain seg rest where sp: "split_on CHR ''.'' s = seg # rest"
    using split_on_nonempty [of "CHR ''.''" s] by (cases "split_on CHR ''.'' s") auto
  note first = split_on_first [OF sp]
  have seg: "seg \<in> name_run" using d sp by (simp add: dotted_name_def)
  show "s \<in> lang tool_name_regexp"
  proof (cases "rest = []")
    case True
    then have "s = seg @ []" using first by simp
    then show ?thesis unfolding lang_tool_name conc_def using seg star_empty by blast
  next
    case False
    then obtain t where t: "s = seg @ CHR ''.'' # t" "split_on CHR ''.'' t = rest"
      using first by blast
    have "dotted_name t" using d sp t(2) by (simp add: dotted_name_def)
    then have "CHR ''.'' # t \<in> dot_runs"
      using dot_runs_backward_segments [OF t(2)] by simp
    then show ?thesis unfolding lang_tool_name conc_def using seg t(1) by blast
  qed
qed

lemma dotted_name_no_double_dot: "dotted_name s \<Longrightarrow> \<not> sublist ''..'' s"
proof
  assume d: "dotted_name s" and "sublist ''..'' s"
  then obtain ps ss where "s = ps @ CHR ''.'' # (CHR ''.'' # ss)"
    by (auto simp: sublist_def)
  then have "split_on CHR ''.'' s = split_on CHR ''.'' ps @ [] # split_on CHR ''.'' ss"
    by (simp add: split_on_append_sep)
  then show False using d by (simp add: dotted_name_def)
qed

lemma validateToolName_valid_iff: "tcv_valid (validateToolName n cid) \<longleftrightarrow> dotted_name n"
  using dotted_name_no_double_dot [of n]
  by (auto simp: validateToolName_def regexp_matches_lang tool_name_lang_dotted)

text \<open>
  Claim C9. \<open>validateToolName\<close> accepts exactly the names made of non-empty segments of
  characters from \<open>[A-Za-z0-9_-]\<close> joined by single dots. On rejection it returns a
  synthetic message with role \<open>tool\<close>, the same \<open>toolCallId\<close> and the rejected name; it
  never throws. \<open>list_files\<close>, \<open>my-tool\<close>, \<open>web.fetch\<close> and \<open>tool123\<close> are accepted;
  \<open>list_files()\<close>, \<open>bad..tool\<close>, \<open>../x\<close>, \<open>tool name\<close> and the empty name are
  rejected.
\<close>

theorem validateToolName_accepts_dotted_names:
  "(tcv_valid (validateToolName n cid) \<longleftrightarrow> dotted_name n)
   \<and> (\<not> dotted_name n \<longrightarrow>
        (\<exists>m. tcv_errorMessage (validateToolName n cid) = Some m
             \<and> role m = ''tool'' \<and> toolCallId m = Some cid \<and> name m = Some n))
   \<and> tcv_valid (validateToolName ''list_files'' cid)
   \<and> tcv_valid (validateToolName ''my-tool'' cid)
   \<and> tcv_valid (validateToolName ''web.fetch'' cid)
   \<and> tcv_valid (validateToolName ''tool123'' cid)
   \<and> \<not> tcv_valid (validateToolName ''list_files()'' cid)
   \<and> \<not> tcv_valid (validateToolName ''bad..tool'' cid)
   \<and> \<not> tcv_valid (validateToolName ''../x'' cid)
   \<and> \<not> tcv_valid (validateToolName ''tool name'' cid)
   \<and> \<not> tcv_valid (validateToolName [] cid)"
proof -
  have ex: "dotted_name ''list_files''" "dotted_name ''my-tool''" "dotted_name ''web.fetch''"
    "dotted_name ''tool123''" "\<not> dotted_name ''list_files()''" "\<not> dotted_name ''bad..tool''"
    "\<not> dotted_name ''../x''" "\<not> dotted_name ''tool name''" "\<not> dotted_name []"
    by code_simp+
  have rej: "\<not> dotted_name n \<longrightarrow>
        (\<exists>m. tcv_errorMessage (validateToolName n cid) = Some m
             \<and> role m = ''tool'' \<and> toolCallId m = Some cid \<and> name m = Some n)"
    using validateToolName_valid_iff [of n cid]
    by (auto simp: validateToolName_def)
  show ?thesis
    using ex rej by (simp add: validateToolName_valid_iff)
qed

theorem validateToolName_accepts_dotted_names_witness:
  "\<not> dotted_name ''list_files()''
   \<and> \<not> tcv_valid (validateToolName ''list_files()'' ''call-123'')
   \<and> (\<exists>m. tcv_errorMessage (validateToolName ''list_files()'' ''call-123'') = Some m
          \<and> role m = ''tool'' \<and> toolCallId m = Some ''call-123'' \<and> name m = Some ''list_files()'')
   \<and> tcv_valid (validateToolName ''web.fetch'' ''call-123'')"
proof -
  have d: "\<not> dotted_name ''list_files()''" by code_simp
  from validateToolName_accepts_dotted_names [of "''list_files()''" "''call-123''"] d
  show ?thesis by blast
qed

section \<open>Decoding what the core serialises\<close>

text \<open>
  The payloads that the tools return are produced by \<open>JSON.stringify\<close> and read back by
  \<open>JSON.parse\<close>. This section shows what the decoder makes of an error payload with an
  arbitrary message and of the success payload of manage\_todos with an arbitrary count.
\<close>

subsection \<open>A quoted string is read back as its code units\<close>




lemma lex_short_escape:
  assumes "escape_char e = Some u"
  shows "lex_from (LStr acc, ts) (CHR 0x5C # e # rest) = lex_from (LStr (acc @ [u]), ts) rest"
proof -
  have "e \<noteq> CHR ''u''" using assms by (auto simp: escape_char_def split: if_splits)
  then show ?thesis using assms by (simp add: lex_step_def)
qed





subsection \<open>The error payload\<close>





subsection \<open>A count is read back as its value\<close>













subsection \<open>The payloads of manage\_todos\<close>













section \<open>Properties of executeToolCall\<close>

subsection \<open>A call of manage\_todos\<close>








subsection \<open>A call with the arguments text null\<close>

text \<open>
  Claim C8 at the raw text \<open>null\<close>. The assistant announces the call \<open>call-1\<close> of
  read\_file with the arguments text \<open>null\<close>. \<open>parseToolArguments\<close> accepts it, with the
  value \<open>null\<close> as \<open>toolArgs\<close>: there is no check that the decoded value is an object.
  \<open>executeToolCall\<close> then throws in \<open>formatToolStatus\<close>, which reads \<open>file_path\<close> of
  \<open>null\<close>; the error passes through the loop, and the transcript that is surfaced has
  the announcement, no tool message for \<open>call-1\<close>, and the text of the error.
\<close>

theorem null_arguments_crash_executor:
  "parseToolArguments (syntax_error_message example_env) ''read_file'' ''null'' ''call-1'' =
     \<lparr>tcv_valid = True, tcv_toolName = Some ''read_file'', tcv_toolArgs = Some JNull,
      tcv_errorMessage = None\<rparr>
   \<and> executeToolCall example_env null_call [plain_message ''user'' (Some ''hi''), null_call_announced]
         False idle_ui
       = (Crashed (null_property_message example_env ''file_path''), idle_ui)
   \<and> tool_phase [plain_message ''user'' (Some ''hi'')] null_call_announced
         [\<lparr>aborted_before = False,
           returned = fst (executeToolCall example_env null_call
                             [plain_message ''user'' (Some ''hi''), null_call_announced] False idle_ui)\<rparr>]
         False
       = ErrorSurfaced
           [plain_message ''user'' (Some ''hi''), null_call_announced,
            handleGeneralError (Some (null_property_message example_env ''file_path''))]
   \<and> unanswered_ids
         [plain_message ''user'' (Some ''hi''), null_call_announced,
          handleGeneralError (Some (null_property_message example_env ''file_path''))]
       = [''call-1'']"
  by code_simp

end
